theory Spec2Isabelle
  imports Main "HOL-Library.Multiset" "HOL-Library.AList"
begin

section \<open>Data model (src/index.tsx, type definitions and constants)\<close>

text \<open>
  The numbers this code computes with are integers (levels, millisecond timestamps), or
  \<open>NaN\<close> where an arithmetic operand is \<open>undefined\<close>. A timestamp is \<open>Date.now()\<close>
  plus at most 2160 hours, far below \<open>2^53\<close>, so the double arithmetic of the source is exact
  and is modelled on \<open>int\<close>.
\<close>

datatype jsnum = Num int | NaN

record MultipleChoice =
  options :: "string list"
  correct_answer :: string

text \<open>
  The content of a meaning, as the content provider returns it
  (\<open>Omit<Meaning, 'srs_level' | 'next_review_date'>\<close>), and the meaning with its two
  scheduling properties.
\<close>

record MeaningContent =
  part_of_speech_english :: string
  part_of_speech_arabic :: string
  one_word_arabic :: string
  explanation_arabic :: string
  example_sentence_english :: string
  example_sentence_arabic :: string
  gap_fill_prompt :: string
  gap_fill_full_sentence :: string
  gap_fill_full_sentence_arabic :: string
  multiple_choice_prompt :: string
  multiple_choice_full_sentence :: string
  multiple_choice_full_sentence_arabic :: string
  multiple_choice :: MultipleChoice

record Meaning = MeaningContent +
  srs_level :: int
  next_review_date :: jsnum

text \<open>
  A slot of a JavaScript array of meanings: a meaning, a hole, or an object that has only
  the two scheduling properties (every content property \<open>undefined\<close>).
\<close>

datatype Slot = Present Meaning | Empty | Bare jsnum jsnum

text \<open>
  \<open>VocabData\<close>: a word and its meanings. The element type is a parameter, since the
  array written by \<open>handleQuizComplete\<close> holds slots.
\<close>

record 'm VocabItem =
  id' :: string
  word :: string
  meanings :: "'m list"

type_synonym VocabData = "Meaning VocabItem"

record ReviewItem =
  word :: string
  meaning :: Meaning
  meaningIndex :: nat
  wordId :: string

text \<open>Spaced repetition intervals in hours, for levels 1 to 8.\<close>

definition srsIntervalsHours :: "int list" where
  "srsIntervalsHours = [4, 8, 24, 72, 168, 336, 720, 2160]"

text \<open>
  An array read \<open>xs[k]\<close> at an integer \<open>k\<close>: \<open>undefined\<close> (here \<open>None\<close>) outside
  \<open>0 .. length - 1\<close>.
\<close>

definition at :: "'a list \<Rightarrow> int \<Rightarrow> 'a option" where
  "at xs k = (if 0 \<le> k \<and> k < int (length xs) then Some (xs ! nat k) else None)"

section \<open>Recording a quiz outcome (handleQuizComplete, the update of the copied meaning)\<close>

text \<open>
  The branch on \<open>isCorrect\<close> inside \<open>handleQuizComplete\<close>, applied to the copy of one
  meaning; \<open>now\<close> is the value of \<open>Date.now()\<close>. An interval read outside the table is
  \<open>undefined\<close>, and the date computed from it is \<open>NaN\<close>.
\<close>

definition recordOutcome :: "int \<Rightarrow> bool \<Rightarrow> Meaning \<Rightarrow> Meaning" where
  "recordOutcome now isCorrect m =
     (if isCorrect then
        (let level = min (srs_level m + 1) (int (length srsIntervalsHours));
             intervalHours = at srsIntervalsHours (level - 1)
         in m\<lparr>srs_level := level,
              next_review_date :=
                (case intervalHours of
                   None \<Rightarrow> NaN
                 | Some h \<Rightarrow> Num (now + h * 60 * 60 * 1000))\<rparr>)
      else
        m\<lparr>srs_level := max 0 (srs_level m - 1),
           next_review_date := Num (now + 5 * 60 * 1000)\<rparr>)"

text \<open>The highest level is the number of intervals.\<close>

definition maxLevel :: int where
  "maxLevel = int (length srsIntervalsHours)"

text \<open>
  A new word (\<open>fetchVocabData\<close>): every meaning of the content provider starts at
  level 0, due at once.
\<close>

definition newMeaning :: "int \<Rightarrow> MeaningContent \<Rightarrow> Meaning" where
  "newMeaning now c = MeaningContent.extend c (Meaning.fields 0 (Num now))"

text \<open>
  The assignment \<open>xs[i] = v\<close>: inside the array it replaces the element; beyond its end
  the array grows to length \<open>i + 1\<close>, with holes between the old end and \<open>i\<close>.
\<close>

definition arraySet :: "Slot list \<Rightarrow> nat \<Rightarrow> Slot \<Rightarrow> Slot list" where
  "arraySet xs i v =
     (if i < length xs then xs[i := v]
      else xs @ replicate (i - length xs) Empty @ [v])"

text \<open>
  The same branch on the copy \<open>{ ...undefined }\<close> of an element that does not exist: the
  copy is an empty object, its level \<open>undefined \<plusminus> 1\<close> is \<open>NaN\<close> through \<open>Math.min\<close> and
  \<open>Math.max\<close>, the interval read at \<open>NaN - 1\<close> is \<open>undefined\<close>.
\<close>

definition recordOutcomeUndefined :: "int \<Rightarrow> bool \<Rightarrow> Slot" where
  "recordOutcomeUndefined now isCorrect =
     (if isCorrect then Bare NaN NaN else Bare NaN (Num (now + 5 * 60 * 1000)))"

text \<open>An item that the update returns as it is.\<close>

definition untouched :: "VocabData \<Rightarrow> Slot VocabItem" where
  "untouched item =
     \<lparr>id' = id' item, VocabItem.word = VocabItem.word item,
      meanings = map Present (meanings item)\<rparr>"

text \<open>
  \<open>handleQuizComplete(wordId, meaningIndex, isCorrect)\<close>: the function given to
  \<open>setVocabList\<close>, from the current list to the new one, and before it the function it
  maps over the list. \<open>meaningIndex\<close> is an array index (the callers pass the index of
  \<open>map\<close> or of a \<open>ReviewItem\<close>), hence a \<open>nat\<close>; at a negative or fractional
  number the assignment would add a property to the array object and leave its elements
  as they are.
\<close>

definition updateItem :: "int \<Rightarrow> string \<Rightarrow> nat \<Rightarrow> bool \<Rightarrow> VocabData \<Rightarrow> Slot VocabItem" where
  "updateItem now targetId index isCorrect item =
     (if id' item = targetId then
        (let newMeanings = map Present (meanings item);
             m = (if index < length (meanings item)
                  then Present (recordOutcome now isCorrect (meanings item ! index))
                  else recordOutcomeUndefined now isCorrect)
         in \<lparr>id' = id' item, VocabItem.word = VocabItem.word item,
             meanings = arraySet newMeanings index m\<rparr>)
      else untouched item)"

definition handleQuizComplete ::
    "int \<Rightarrow> string \<Rightarrow> nat \<Rightarrow> bool \<Rightarrow> VocabData list \<Rightarrow> Slot VocabItem list" where
  "handleQuizComplete now targetId index isCorrect currentList =
     map (updateItem now targetId index isCorrect) currentList"

text \<open>
  The new list as a list of \<open>VocabData\<close> again: defined when no array has a hole or a
  bare object.
\<close>

definition slotMeaning :: "Slot \<Rightarrow> Meaning option" where
  "slotMeaning s = (case s of Present m \<Rightarrow> Some m | Empty \<Rightarrow> None | Bare l d \<Rightarrow> None)"

definition typedItem :: "Slot VocabItem \<Rightarrow> VocabData option" where
  "typedItem item =
     (if list_all (\<lambda>s. slotMeaning s \<noteq> None) (meanings item)
      then Some \<lparr>id' = id' item, VocabItem.word = VocabItem.word item,
                 meanings = map (\<lambda>s. the (slotMeaning s)) (meanings item)\<rparr>
      else None)"

section \<open>Starting a review session (startReviewSession)\<close>

text \<open>The comparison \<open>d <= now\<close> of a date with \<open>Date.now()\<close>: false at \<open>NaN\<close>.\<close>

definition lessEq :: "jsnum \<Rightarrow> int \<Rightarrow> bool" where
  "lessEq d now = (case d of Num t \<Rightarrow> t \<le> now | NaN \<Rightarrow> False)"

text \<open>The two nested \<open>forEach\<close> loops that push every due meaning.\<close>

definition allDueMeanings :: "int \<Rightarrow> VocabData list \<Rightarrow> ReviewItem list" where
  "allDueMeanings now vocabList =
     fold (\<lambda>item acc.
             fold (\<lambda>(index, m) acc.
                     if lessEq (next_review_date m) now
                     then acc @ [\<lparr>word = VocabItem.word item, meaning = m,
                                  meaningIndex = index, wordId = id' item\<rparr>]
                     else acc)
                  (enumerate 0 (meanings item)) acc)
          vocabList []"

text \<open>
  \<open>allDueMeanings.sort((a, b) => a.meaning.srs_level - b.meaning.srs_level)\<close>, then
  \<open>slice(0, 10)\<close>. On integer levels the comparator is consistent, and the sort of
  ECMAScript is then the stable sort by level.
\<close>

definition itemsForReview :: "ReviewItem list \<Rightarrow> ReviewItem list" where
  "itemsForReview due = take 10 (sort_key (\<lambda>a. srs_level (meaning a)) due)"

text \<open>
  \<open>itemsForReview.sort(() => Math.random() - 0.5)\<close>: the sort of the JavaScript engine
  under a comparator that ignores its arguments. The engine's algorithm is not part of the
  program, so it is a parameter \<open>randomSort\<close>, a function of the state \<open>r\<close> of the random
  source and of the array. The result is the list given to \<open>setReviewItems\<close>.
\<close>

definition startReviewSession ::
    "('r \<Rightarrow> ReviewItem list \<Rightarrow> ReviewItem list) \<Rightarrow> 'r \<Rightarrow> int \<Rightarrow> VocabData list
       \<Rightarrow> ReviewItem list" where
  "startReviewSession randomSort r now vocabList =
     randomSort r (itemsForReview (allDueMeanings now vocabList))"

text \<open>What the inner loop pushes for one item, as a list.\<close>

definition dueOf :: "int \<Rightarrow> VocabData \<Rightarrow> ReviewItem list" where
  "dueOf now item =
     map (\<lambda>(index, m). \<lparr>word = VocabItem.word item, meaning = m,
                           meaningIndex = index, wordId = id' item\<rparr>)
         (filter (\<lambda>(index, m). lessEq (next_review_date m) now) (enumerate 0 (meanings item)))"

section \<open>The random order of a session\<close>

text \<open>
  A sample engine for \<open>sort(() => Math.random() - 0.5)\<close>: insertion sort. Each coin of
  \<open>r\<close> is one call of the comparator, \<open>True\<close> when \<open>Math.random() - 0.5\<close> is positive
  (the element moves one place to the left); an exhausted source stops the move. The
  sorted prefix is kept in reverse.
\<close>

fun insertRandom :: "bool list \<Rightarrow> 'a \<Rightarrow> 'a list \<Rightarrow> bool list \<times> 'a list" where
  "insertRandom r x [] = (r, [x])"
| "insertRandom [] x (y # ys) = ([], x # y # ys)"
| "insertRandom (c # r) x (y # ys) =
     (if c then (case insertRandom r x ys of (r', zs) \<Rightarrow> (r', y # zs))
      else (r, x # y # ys))"

definition insertionSort :: "bool list \<Rightarrow> 'a list \<Rightarrow> 'a list" where
  "insertionSort r xs = rev (snd (fold (\<lambda>x (r, sorted). insertRandom r x sorted) xs (r, [])))"

text \<open>
  The sort of an engine as a program over the array: it stops, exchanges the elements at
  two indices, or calls the comparator and goes on as the result says. The comparator of
  the session ignores its arguments, so the result of a call is the next value of the
  random source \<open>r\<close>, the list of the results of the calls; where the list ends the
  program stops. An engine has one program for every length of array. A sort that
  rearranges its array is such a program: every rearrangement is a sequence of exchanges.
\<close>

datatype 'c alg = Stop | Exchange nat nat "'c alg" | Compare "'c \<Rightarrow> 'c alg"

text \<open>The exchange of two elements; indices outside the array exchange nothing.\<close>

definition exchange :: "nat \<Rightarrow> nat \<Rightarrow> 'a list \<Rightarrow> 'a list" where
  "exchange i j xs =
     (if i < length xs \<and> j < length xs then xs[i := xs ! j, j := xs ! i] else xs)"

primrec run :: "'c alg \<Rightarrow> 'c list \<Rightarrow> 'a list \<Rightarrow> 'a list" where
  "run Stop = (\<lambda>r xs. xs)"
| "run (Exchange i j k) = (\<lambda>r xs. run k r (exchange i j xs))"
| "run (Compare f) = (\<lambda>r xs. case r of [] \<Rightarrow> xs | c # r' \<Rightarrow> run (f c) r' xs)"

definition engineSort :: "(nat \<Rightarrow> 'c alg) \<Rightarrow> 'c list \<Rightarrow> 'a list \<Rightarrow> 'a list" where
  "engineSort engine r xs = run (engine (length xs)) r xs"

text \<open>
  Insertion sort as such a program: the element at \<open>p\<close> moves one place to the left for
  every call whose result is \<open>True\<close>, and the next element is inserted after the first
  call whose result is \<open>False\<close>.
\<close>

primrec insertAlg :: "nat \<Rightarrow> bool alg \<Rightarrow> bool alg" where
  "insertAlg 0 k = k"
| "insertAlg (Suc p) k = Compare (\<lambda>c. if c then Exchange p (Suc p) (insertAlg p k) else k)"

definition insertionEngine :: "nat \<Rightarrow> bool alg" where
  "insertionEngine n = foldr insertAlg [1..<n] Stop"

text \<open>All orders of a list.\<close>

primrec perms :: "'a list \<Rightarrow> 'a list list" where
  "perms [] = [[]]"
| "perms (x # xs) =
     concat (map (\<lambda>p. map (\<lambda>i. take i p @ x # drop i p) [0..<Suc (length p)]) (perms xs))"

text \<open>
  The random source as \<open>n\<close> fair bits: \<open>sessionCount\<close> is the number of the \<open>2^n\<close> equally
  likely states of the source under which the session is \<open>p\<close>, and the orders of a session
  are equally likely when every order of the selected items has the same count.
\<close>

definition sessionCount ::
    "nat \<Rightarrow> (bool list \<Rightarrow> ReviewItem list \<Rightarrow> ReviewItem list) \<Rightarrow> int \<Rightarrow> VocabData list
       \<Rightarrow> ReviewItem list \<Rightarrow> nat" where
  "sessionCount n randomSort now vocabList p =
     length (filter (\<lambda>r. startReviewSession randomSort r now vocabList = p)
                    (List.n_lists n [False, True]))"

definition equallyLikely ::
    "nat \<Rightarrow> (bool list \<Rightarrow> ReviewItem list \<Rightarrow> ReviewItem list) \<Rightarrow> int \<Rightarrow> VocabData list
       \<Rightarrow> bool" where
  "equallyLikely n randomSort now vocabList =
     (let ps = perms (itemsForReview (allDueMeanings now vocabList))
      in list_all (\<lambda>p. list_all (\<lambda>q. sessionCount n randomSort now vocabList p
                                       = sessionCount n randomSort now vocabList q) ps) ps)"

section \<open>Mastered words (masteredWords, inProgressWords)\<close>

definition MASTERY_THRESHOLD :: int where
  "MASTERY_THRESHOLD = 6"

text \<open>
  \<open>word.meanings.every(meaning => meaning.srs_level >= MASTERY_THRESHOLD)\<close>, with the
  threshold as a parameter; the source passes the constant.
\<close>

definition isMastered :: "int \<Rightarrow> VocabData \<Rightarrow> bool" where
  "isMastered threshold item = list_all (\<lambda>m. srs_level m \<ge> threshold) (meanings item)"

definition masteredWords :: "VocabData list \<Rightarrow> nat" where
  "masteredWords vocabList =
     fold (\<lambda>item mastered. if isMastered MASTERY_THRESHOLD item then mastered + 1 else mastered)
          vocabList 0"

definition inProgressWords :: "VocabData list \<Rightarrow> nat" where
  "inProgressWords vocabList = length vocabList - masteredWords vocabList"

section \<open>Loading the stored list (the migration in the first effect of App)\<close>

text \<open>
  The value \<open>JSON.parse\<close> returns for the stored list. An object is the list of its
  properties in order, and \<open>map_of\<close> reads a property (\<open>None\<close> is \<open>undefined\<close>).
  The numbers the program stores are levels and timestamps, so a number is an integer.
\<close>

datatype json = JNull | JBool bool | JNum int | JStr string | JArr "json list"
  | JObj "(string \<times> json) list"

text \<open>\<open>typeof v === 'string'\<close> and \<open>Array.isArray(v)\<close> of a property that may be absent.\<close>

definition isString :: "json option \<Rightarrow> bool" where
  "isString v = (case v of Some (JStr s) \<Rightarrow> True | _ \<Rightarrow> False)"

definition isArray :: "json option \<Rightarrow> bool" where
  "isArray v = (case v of Some (JArr xs) \<Rightarrow> True | _ \<Rightarrow> False)"

text \<open>
  The second guard, negated: \<open>m.multiple_choice\<close> is truthy, its \<open>typeof\<close> is
  \<open>'object'\<close> and \<open>m.multiple_choice.options\<close> is an array. An array in the place of
  \<open>multiple_choice\<close> has no property \<open>options\<close>, so only an object passes.
\<close>

definition multipleChoiceValid :: "(string \<times> json) list \<Rightarrow> bool" where
  "multipleChoiceValid m =
     (case map_of m ''multiple_choice'' of
        Some (JObj mc) \<Rightarrow> isArray (map_of mc ''options'')
      | _ \<Rightarrow> False)"

text \<open>\<open>'srs_level' in m && 'next_review_date' in m\<close>.\<close>

definition hasSrsData :: "(string \<times> json) list \<Rightarrow> bool" where
  "hasSrsData m = (map_of m ''srs_level'' \<noteq> None \<and> map_of m ''next_review_date'' \<noteq> None)"

text \<open>
  The function mapped over \<open>item.meanings\<close>; \<open>None\<close> is the \<open>null\<close> that
  \<open>filter(Boolean)\<close> removes. The spread \<open>{ ...m, srs_level: 0, next_review_date: Date.now() }\<close>
  keeps the properties of \<open>m\<close> and sets the two (\<open>AList.update\<close>: in place when the
  property exists, at the end otherwise).
\<close>

fun migrateMeaning :: "int \<Rightarrow> json \<Rightarrow> json option" where
  "migrateMeaning now (JObj m) =
     (if \<not> multipleChoiceValid m then None
      else if \<not> isString (map_of m ''gap_fill_prompt'') \<or> \<not> isString (map_of m ''one_word_arabic'')
      then None
      else if hasSrsData m then Some (JObj m)
      else Some (JObj (AList.update ''next_review_date'' (JNum now)
                         (AList.update ''srs_level'' (JNum 0) m))))"
| "migrateMeaning now v = None"

text \<open>
  The first filter: \<open>typeof item === 'object' && item !== null &&
  Array.isArray(item.meanings) && typeof item.word === 'string'\<close>.
\<close>

definition validItem :: "json \<Rightarrow> bool" where
  "validItem item =
     (case item of
        JObj kv \<Rightarrow> isArray (map_of kv ''meanings'') \<and> isString (map_of kv ''word'')
      | _ \<Rightarrow> False)"

text \<open>\<open>{ ...item, meanings: validMeanings }\<close>, on an item that passed the first filter.\<close>

definition migrateItem :: "int \<Rightarrow> json \<Rightarrow> json" where
  "migrateItem now item =
     (case item of
        JObj kv \<Rightarrow>
          (case map_of kv ''meanings'' of
             Some (JArr ms) \<Rightarrow>
               JObj (AList.update ''meanings'' (JArr (List.map_filter (migrateMeaning now) ms)) kv)
           | _ \<Rightarrow> item)
      | _ \<Rightarrow> item)"

text \<open>The last filter: \<open>item.meanings.length > 0\<close>.\<close>

definition hasMeanings :: "json \<Rightarrow> bool" where
  "hasMeanings item =
     (case item of
        JObj kv \<Rightarrow> (case map_of kv ''meanings'' of Some (JArr ms) \<Rightarrow> ms \<noteq> [] | _ \<Rightarrow> False)
      | _ \<Rightarrow> False)"

definition migratedList :: "int \<Rightarrow> json list \<Rightarrow> json list" where
  "migratedList now parsedList =
     filter hasMeanings (map (migrateItem now) (filter validItem parsedList))"

text \<open>
  What the save effect stores, \<open>JSON.stringify(vocabList)\<close>, read back by
  \<open>JSON.parse\<close>: the properties of a meaning, of a meaning without its scheduling
  properties (a record stored before they existed), and of a word. \<open>JSON.stringify\<close>
  writes \<open>NaN\<close> as \<open>null\<close>.
\<close>

definition contentJson :: "'a MeaningContent_scheme \<Rightarrow> (string \<times> json) list" where
  "contentJson c =
     [(''part_of_speech_english'', JStr (part_of_speech_english c)),
      (''part_of_speech_arabic'', JStr (part_of_speech_arabic c)),
      (''one_word_arabic'', JStr (one_word_arabic c)),
      (''explanation_arabic'', JStr (explanation_arabic c)),
      (''example_sentence_english'', JStr (example_sentence_english c)),
      (''example_sentence_arabic'', JStr (example_sentence_arabic c)),
      (''gap_fill_prompt'', JStr (gap_fill_prompt c)),
      (''gap_fill_full_sentence'', JStr (gap_fill_full_sentence c)),
      (''gap_fill_full_sentence_arabic'', JStr (gap_fill_full_sentence_arabic c)),
      (''multiple_choice_prompt'', JStr (multiple_choice_prompt c)),
      (''multiple_choice_full_sentence'', JStr (multiple_choice_full_sentence c)),
      (''multiple_choice_full_sentence_arabic'', JStr (multiple_choice_full_sentence_arabic c)),
      (''multiple_choice'',
         JObj [(''options'', JArr (map JStr (options (multiple_choice c)))),
               (''correct_answer'', JStr (correct_answer (multiple_choice c)))])]"

definition numJson :: "jsnum \<Rightarrow> json" where
  "numJson d = (case d of Num t \<Rightarrow> JNum t | NaN \<Rightarrow> JNull)"

definition meaningJson :: "Meaning \<Rightarrow> json" where
  "meaningJson m =
     JObj (contentJson m @ [(''srs_level'', JNum (srs_level m)),
                            (''next_review_date'', numJson (next_review_date m))])"

definition vocabJson :: "('m \<Rightarrow> json) \<Rightarrow> 'm VocabItem \<Rightarrow> json" where
  "vocabJson f item =
     JObj [(''id'', JStr (id' item)), (''word'', JStr (VocabItem.word item)),
           (''meanings'', JArr (map f (meanings item)))]"

text \<open>
  A stored meaning with or without its scheduling properties, what is expected of it on
  load (a record without them is loaded as a new meaning of its content, at level 0 and
  due \<open>now\<close>; a record with them as it is), and the expected item.
\<close>

definition storedJson :: "MeaningContent + Meaning \<Rightarrow> json" where
  "storedJson s = (case s of Inl c \<Rightarrow> JObj (contentJson c) | Inr m \<Rightarrow> meaningJson m)"

definition loadedMeaning :: "int \<Rightarrow> MeaningContent + Meaning \<Rightarrow> Meaning" where
  "loadedMeaning now s = (case s of Inl c \<Rightarrow> newMeaning now c | Inr m \<Rightarrow> m)"

definition loadedItem :: "int \<Rightarrow> (MeaningContent + Meaning) VocabItem \<Rightarrow> VocabData" where
  "loadedItem now item =
     \<lparr>id' = id' item, VocabItem.word = VocabItem.word item,
      meanings = map (loadedMeaning now) (meanings item)\<rparr>"

text \<open>What the migration returns for an object that passes its guards.\<close>

definition migratedRecord :: "int \<Rightarrow> (string \<times> json) list \<Rightarrow> json" where
  "migratedRecord now r =
     (if hasSrsData r then JObj r
      else JObj (AList.update ''next_review_date'' (JNum now)
                  (AList.update ''srs_level'' (JNum 0) r)))"

section \<open>Sample data\<close>

definition sampleContent :: MeaningContent where
  "sampleContent =
     \<lparr>part_of_speech_english = ''Noun'', part_of_speech_arabic = ''ism'',
      one_word_arabic = ''kitab'', explanation_arabic = ''kitab lilqiraa'',
      example_sentence_english = ''I read a book.'',
      example_sentence_arabic = ''qaratu kitaban'',
      gap_fill_prompt = ''She bought a ___.'',
      gap_fill_full_sentence = ''She bought a book.'',
      gap_fill_full_sentence_arabic = ''ishtarat kitaban'',
      multiple_choice_prompt = ''This ___ is long.'',
      multiple_choice_full_sentence = ''This book is long.'',
      multiple_choice_full_sentence_arabic = ''hadha alkitab tawil'',
      multiple_choice =
        \<lparr>options = [''book'', ''door'', ''tree'', ''road''], correct_answer = ''book''\<rparr>\<rparr>"

definition sampleMeaning :: "int \<Rightarrow> jsnum \<Rightarrow> Meaning" where
  "sampleMeaning l d = MeaningContent.extend sampleContent (Meaning.fields l d)"

definition sampleItem :: "string \<Rightarrow> string \<Rightarrow> Meaning list \<Rightarrow> VocabData" where
  "sampleItem i w ms = \<lparr>id' = i, VocabItem.word = w, meanings = ms\<rparr>"

definition sampleList :: "VocabData list" where
  "sampleList =
     [sampleItem ''1'' ''book'' [sampleMeaning 0 (Num 500), sampleMeaning 3 (Num 2000)],
      sampleItem ''2'' ''run'' [sampleMeaning 1 (Num 1000)]]"

definition sampleList3 :: "VocabData list" where
  "sampleList3 =
     [sampleItem ''1'' ''book'' [sampleMeaning 0 (Num 500), sampleMeaning 1 (Num 600)],
      sampleItem ''2'' ''run'' [sampleMeaning 2 (Num 1000)]]"

text \<open>Twelve due meanings, with the levels 3, 0, 5, 0, 2, 1, 4, 0, 6, 2, 7, 1.\<close>

definition sampleDue12 :: "ReviewItem list" where
  "sampleDue12 =
     map (\<lambda>(i, l). \<lparr>word = ''book'', meaning = sampleMeaning l (Num 0),
                      meaningIndex = i, wordId = ''1''\<rparr>)
         (enumerate 0 [3, 0, 5, 0, 2, 1, 4, 0, 6, 2, 7, 1])"

definition sampleStored :: "(MeaningContent + Meaning) VocabItem list" where
  "sampleStored =
     [\<lparr>id' = ''1'', VocabItem.word = ''book'',
       meanings = [Inl sampleContent, Inr (sampleMeaning 3 (Num 2000))]\<rparr>,
      \<lparr>id' = ''2'', VocabItem.word = ''run'', meanings = []\<rparr>]"

definition sampleParsed :: "json list" where
  "sampleParsed =
     [JNull,
      JObj [(''word'', JStr ''book''), (''meanings'', JArr [JStr ''x'', JObj (contentJson sampleContent)])]]"

section \<open>Properties of one recorded outcome\<close>

lemma maxLevel_eq: "maxLevel = 8"
  by (simp add: maxLevel_def srsIntervalsHours_def)

lemma at_srsIntervalsHours:
  assumes "1 \<le> l" and "l \<le> 8"
  shows "at srsIntervalsHours (l - 1) = Some (srsIntervalsHours ! nat (l - 1))"
  using assms by (simp add: at_def srsIntervalsHours_def)

lemma at_srsIntervalsHours_positive:
  assumes "at srsIntervalsHours k = Some h"
  shows "0 < h"
proof -
  from assms have k: "0 \<le> k" "k < 8" and h: "h = srsIntervalsHours ! nat k"
    by (auto simp: at_def srsIntervalsHours_def split: if_splits)
  from k have "nat k \<in> {0, 1, 2, 3, 4, 5, 6, 7}" by auto
  then show ?thesis
    unfolding h srsIntervalsHours_def by auto
qed

lemma recordOutcome_correct_level:
  "srs_level (recordOutcome now True m) = min (srs_level m + 1) maxLevel"
  by (simp add: recordOutcome_def maxLevel_def Let_def)

lemma recordOutcome_incorrect_level:
  "srs_level (recordOutcome now False m) = max (srs_level m - 1) 0"
  by (simp add: recordOutcome_def max.commute)

lemma recordOutcome_incorrect_date:
  "next_review_date (recordOutcome now False m) = Num (now + 300000)"
  by (simp add: recordOutcome_def)

lemma recordOutcome_correct_date:
  assumes "0 \<le> srs_level m"
  shows "next_review_date (recordOutcome now True m) =
           Num (now + srsIntervalsHours ! nat (min (srs_level m + 1) maxLevel - 1) * 3600000)"
proof -
  let ?l = "min (srs_level m + 1) (int (length srsIntervalsHours))"
  have len: "int (length srsIntervalsHours) = 8"
    by (simp add: srsIntervalsHours_def)
  from assms have "1 \<le> ?l" and "?l \<le> 8"
    by (simp_all add: len)
  then have "at srsIntervalsHours (?l - 1) = Some (srsIntervalsHours ! nat (?l - 1))"
    by (rule at_srsIntervalsHours)
  then show ?thesis
    by (simp add: recordOutcome_def maxLevel_def Let_def)
qed

text \<open>
  C1. For a meaning whose level lies in \<open>[0, maxLevel]\<close>, a correct outcome at time \<open>now\<close>
  gives the level \<open>min (level + 1) maxLevel\<close> and the due date
  \<open>now + intervals[level' - 1]\<close> hours (in milliseconds), the read being inside the
  table; at \<open>maxLevel\<close> the level stays \<open>maxLevel\<close>.
\<close>

theorem recordOutcome_correct:
  assumes "0 \<le> srs_level m" and "srs_level m \<le> maxLevel"
  shows "srs_level (recordOutcome now True m) = min (srs_level m + 1) maxLevel
       \<and> nat (srs_level (recordOutcome now True m) - 1) < length srsIntervalsHours
       \<and> 1 \<le> srs_level (recordOutcome now True m)
       \<and> next_review_date (recordOutcome now True m) =
           Num (now + srsIntervalsHours ! nat (srs_level (recordOutcome now True m) - 1)
                        * 60 * 60 * 1000)
       \<and> (srs_level m = maxLevel \<longrightarrow> srs_level (recordOutcome now True m) = maxLevel)"
proof -
  let ?l = "srs_level (recordOutcome now True m)"
  have l: "?l = min (srs_level m + 1) maxLevel"
    by (rule recordOutcome_correct_level)
  have range: "1 \<le> ?l" "?l \<le> 8"
    using assms by (simp_all add: l maxLevel_eq)
  then have inside: "nat (?l - 1) < length srsIntervalsHours"
    by (simp add: srsIntervalsHours_def)
  have date: "next_review_date (recordOutcome now True m) =
                Num (now + srsIntervalsHours ! nat (?l - 1) * 60 * 60 * 1000)"
    using recordOutcome_correct_date [OF assms(1), of now] by (simp add: l)
  have sat: "srs_level m = maxLevel \<longrightarrow> ?l = maxLevel"
    by (simp add: l)
  from l inside range(1) date sat show ?thesis
    by blast
qed

text \<open>
  C2. For a meaning whose level lies in \<open>[0, maxLevel]\<close>, an incorrect outcome at time
  \<open>now\<close> gives the level \<open>max (level - 1) 0\<close> and the due date \<open>now\<close> plus five minutes,
  whatever the level; at level 0 the level stays 0.
\<close>

theorem recordOutcome_incorrect:
  assumes "0 \<le> srs_level m" and "srs_level m \<le> maxLevel"
  shows "srs_level (recordOutcome now False m) = max (srs_level m - 1) 0
       \<and> next_review_date (recordOutcome now False m) = Num (now + 5 * 60 * 1000)
       \<and> (srs_level m = 0 \<longrightarrow> srs_level (recordOutcome now False m) = 0)"
  by (simp add: recordOutcome_incorrect_level recordOutcome_incorrect_date)

theorem recordOutcome_correct_witness:
  "0 \<le> srs_level (sampleMeaning 2 (Num 0)) \<and> srs_level (sampleMeaning 2 (Num 0)) \<le> maxLevel
   \<and> srs_level (recordOutcome 1000 True (sampleMeaning 2 (Num 0))) = 3
   \<and> next_review_date (recordOutcome 1000 True (sampleMeaning 2 (Num 0)))
       = Num (1000 + 24 * 60 * 60 * 1000)"
proof -
  have lo: "0 \<le> srs_level (sampleMeaning 2 (Num 0))"
    by (simp add: sampleMeaning_def MeaningContent.extend_def Meaning.fields_def)
  have hi: "srs_level (sampleMeaning 2 (Num 0)) \<le> maxLevel"
    by (simp add: sampleMeaning_def MeaningContent.extend_def Meaning.fields_def maxLevel_eq)
  from recordOutcome_correct [OF lo hi, of 1000] lo hi show ?thesis
    by (simp add: sampleMeaning_def MeaningContent.extend_def Meaning.fields_def maxLevel_eq
        srsIntervalsHours_def)
qed

theorem recordOutcome_incorrect_witness:
  "0 \<le> srs_level (sampleMeaning 3 (Num 0)) \<and> srs_level (sampleMeaning 3 (Num 0)) \<le> maxLevel
   \<and> srs_level (recordOutcome 1000 False (sampleMeaning 3 (Num 0))) = 2
   \<and> next_review_date (recordOutcome 1000 False (sampleMeaning 3 (Num 0))) = Num 301000"
proof -
  have lo: "0 \<le> srs_level (sampleMeaning 3 (Num 0))"
    by (simp add: sampleMeaning_def MeaningContent.extend_def Meaning.fields_def)
  have hi: "srs_level (sampleMeaning 3 (Num 0)) \<le> maxLevel"
    by (simp add: sampleMeaning_def MeaningContent.extend_def Meaning.fields_def maxLevel_eq)
  from recordOutcome_incorrect [OF lo hi, of 1000] lo hi show ?thesis
    by (simp add: sampleMeaning_def MeaningContent.extend_def Meaning.fields_def)
qed

subsection \<open>The level stays in its range\<close>

lemma recordOutcome_level_bounds:
  assumes "0 \<le> srs_level m" and "srs_level m \<le> maxLevel"
  shows "0 \<le> srs_level (recordOutcome now isCorrect m)"
    and "srs_level (recordOutcome now isCorrect m) \<le> maxLevel"
  using assms
  by (cases isCorrect;
      simp add: recordOutcome_correct_level recordOutcome_incorrect_level maxLevel_eq)+

lemma recordOutcome_date_set:
  assumes "0 \<le> srs_level m"
  shows "\<exists>d. 0 < d \<and> next_review_date (recordOutcome now isCorrect m) = Num (now + d)"
proof (cases isCorrect)
  case True
  let ?l = "min (srs_level m + 1) maxLevel"
  from assms have "1 \<le> ?l" and "?l \<le> 8"
    by (simp_all add: maxLevel_eq)
  then have "at srsIntervalsHours (?l - 1) = Some (srsIntervalsHours ! nat (?l - 1))"
    by (rule at_srsIntervalsHours)
  then have "0 < srsIntervalsHours ! nat (?l - 1)"
    by (rule at_srsIntervalsHours_positive)
  then have "0 < srsIntervalsHours ! nat (?l - 1) * 3600000"
    by simp
  with recordOutcome_correct_date [OF assms, of now] True show ?thesis
    by auto
next
  case False
  have "(0::int) < 300000" by simp
  with recordOutcome_incorrect_date [of now m] False show ?thesis
    by auto
qed

text \<open>Any sequence of outcomes, each with its own time, on a meaning within the range.\<close>

lemma recordOutcome_sequence_level_bounds:
  assumes "0 \<le> srs_level m" and "srs_level m \<le> maxLevel"
  shows "0 \<le> srs_level (fold (\<lambda>(now, isCorrect). recordOutcome now isCorrect) calls m)
       \<and> srs_level (fold (\<lambda>(now, isCorrect). recordOutcome now isCorrect) calls m) \<le> maxLevel"
  using assms
proof (induction calls arbitrary: m)
  case Nil
  then show ?case by simp
next
  case (Cons c calls)
  obtain now isCorrect where c: "c = (now, isCorrect)"
    by (cases c)
  from Cons.prems have "0 \<le> srs_level (recordOutcome now isCorrect m)"
    and "srs_level (recordOutcome now isCorrect m) \<le> maxLevel"
    by (rule recordOutcome_level_bounds)+
  then show ?case
    using Cons.IH [of "recordOutcome now isCorrect m"] by (simp add: c)
qed

lemma newMeaning_level: "srs_level (newMeaning now c) = 0"
  by (simp add: newMeaning_def MeaningContent.extend_def Meaning.fields_def)

lemma newMeaning_date: "next_review_date (newMeaning now c) = Num now"
  by (simp add: newMeaning_def MeaningContent.extend_def Meaning.fields_def)

text \<open>
  C3. The level is always within \<open>[0, maxLevel]\<close>: a recorded outcome, correct or
  incorrect, on a meaning whose level is within the range returns a meaning whose level is
  within the range, and sets the due date to a timestamp after \<open>now\<close> (on every call, so
  whenever the level changes); hence a meaning created at level 0 stays within the range
  under every sequence of outcomes.
\<close>

theorem recordOutcome_level_invariant:
  assumes "0 \<le> srs_level m" and "srs_level m \<le> maxLevel"
  shows "0 \<le> srs_level (recordOutcome now isCorrect m)
       \<and> srs_level (recordOutcome now isCorrect m) \<le> maxLevel
       \<and> (\<exists>d. 0 < d \<and> next_review_date (recordOutcome now isCorrect m) = Num (now + d))
       \<and> 0 \<le> srs_level (fold (\<lambda>(t, ok). recordOutcome t ok) calls (newMeaning t0 c))
       \<and> srs_level (fold (\<lambda>(t, ok). recordOutcome t ok) calls (newMeaning t0 c)) \<le> maxLevel"
proof -
  have "0 \<le> srs_level (newMeaning t0 c)" and "srs_level (newMeaning t0 c) \<le> maxLevel"
    by (simp_all add: newMeaning_level maxLevel_eq)
  then have "0 \<le> srs_level (fold (\<lambda>(t, ok). recordOutcome t ok) calls (newMeaning t0 c))
       \<and> srs_level (fold (\<lambda>(t, ok). recordOutcome t ok) calls (newMeaning t0 c)) \<le> maxLevel"
    by (rule recordOutcome_sequence_level_bounds)
  with recordOutcome_level_bounds [OF assms, of now isCorrect]
    recordOutcome_date_set [OF assms(1), of now isCorrect]
  show ?thesis
    by blast
qed

theorem recordOutcome_level_invariant_witness:
  "0 \<le> srs_level (sampleMeaning 8 (Num 0)) \<and> srs_level (sampleMeaning 8 (Num 0)) \<le> maxLevel
   \<and> srs_level (recordOutcome 1000 True (sampleMeaning 8 (Num 0))) = 8
   \<and> 0 \<le> srs_level (recordOutcome 1000 True (sampleMeaning 8 (Num 0)))
   \<and> srs_level (recordOutcome 1000 True (sampleMeaning 8 (Num 0))) \<le> maxLevel
   \<and> (\<exists>d. 0 < d \<and> next_review_date (recordOutcome 1000 True (sampleMeaning 8 (Num 0)))
                     = Num (1000 + d))"
proof -
  have lo: "0 \<le> srs_level (sampleMeaning 8 (Num 0))"
    by (simp add: sampleMeaning_def MeaningContent.extend_def Meaning.fields_def)
  have hi: "srs_level (sampleMeaning 8 (Num 0)) \<le> maxLevel"
    by (simp add: sampleMeaning_def MeaningContent.extend_def Meaning.fields_def maxLevel_eq)
  have l: "srs_level (recordOutcome 1000 True (sampleMeaning 8 (Num 0))) = 8"
    by (simp add: recordOutcome_correct_level sampleMeaning_def MeaningContent.extend_def
        Meaning.fields_def maxLevel_eq)
  from recordOutcome_level_invariant [OF lo hi, of 1000 True "[]" 0 sampleContent] lo hi l
  show ?thesis
    by blast
qed

section \<open>The due meanings\<close>

lemma fold_push_filter:
  "fold (\<lambda>x acc. if P x then acc @ [f x] else acc) xs acc = acc @ map f (filter P xs)"
  by (induction xs arbitrary: acc) simp_all

lemma fold_append_concat:
  "fold (\<lambda>x acc. acc @ g x) xs acc = acc @ concat (map g xs)"
  by (induction xs arbitrary: acc) simp_all

lemma allDueMeanings_concat:
  "allDueMeanings now vocabList = concat (map (dueOf now) vocabList)"
proof -
  have inner: "\<And>item acc.
      fold (\<lambda>(index, m) acc.
              if lessEq (next_review_date m) now
              then acc @ [\<lparr>word = VocabItem.word item, meaning = m,
                           meaningIndex = index, wordId = id' item\<rparr>]
              else acc)
           (enumerate 0 (meanings item)) acc
      = acc @ dueOf now item"
  proof -
    fix item :: VocabData and acc :: "ReviewItem list"
    have "(\<lambda>(index, m) acc.
              if lessEq (next_review_date m) now
              then acc @ [\<lparr>word = VocabItem.word item, meaning = m,
                           meaningIndex = index, wordId = id' item\<rparr>]
              else acc)
        = (\<lambda>x acc. if (\<lambda>(index, m). lessEq (next_review_date m) now) x
                     then acc @ [(\<lambda>(index, m). \<lparr>word = VocabItem.word item, meaning = m,
                           meaningIndex = index, wordId = id' item\<rparr>) x]
                     else acc)"
      by (simp add: fun_eq_iff split: prod.splits)
    then show "fold (\<lambda>(index, m) acc.
              if lessEq (next_review_date m) now
              then acc @ [\<lparr>word = VocabItem.word item, meaning = m,
                           meaningIndex = index, wordId = id' item\<rparr>]
              else acc)
           (enumerate 0 (meanings item)) acc
      = acc @ dueOf now item"
      by (simp only: fold_push_filter dueOf_def)
  qed
  show ?thesis
    unfolding allDueMeanings_def inner by (simp add: fold_append_concat)
qed

lemma set_dueOf:
  "set (dueOf now item) =
     {\<lparr>word = VocabItem.word item, meaning = meanings item ! index,
       meaningIndex = index, wordId = id' item\<rparr> | index.
      index < length (meanings item) \<and> lessEq (next_review_date (meanings item ! index)) now}"
  by (auto simp: dueOf_def in_set_enumerate_eq image_iff)

lemma length_dueOf:
  "length (dueOf now item) =
     length (filter (\<lambda>m. lessEq (next_review_date m) now) (meanings item))"
proof -
  let ?P = "\<lambda>m. lessEq (next_review_date m) now"
  let ?e = "enumerate 0 (meanings item)"
  have eq: "(\<lambda>(index, m). ?P m) = ?P \<circ> snd"
    by (simp add: fun_eq_iff)
  have "length (dueOf now item) = length (filter (?P \<circ> snd) ?e)"
    unfolding dueOf_def eq by simp
  also have "\<dots> = length (map snd (filter (?P \<circ> snd) ?e))"
    by simp
  also have "\<dots> = length (filter ?P (map snd ?e))"
    by (simp only: filter_map)
  also have "\<dots> = length (filter ?P (meanings item))"
    by simp
  finally show ?thesis .
qed

lemma lessEq_iff: "lessEq d now \<longleftrightarrow> (\<exists>t. d = Num t \<and> t \<le> now)"
  by (cases d) (simp_all add: lessEq_def)

text \<open>
  C4. The due meanings are exactly the meanings, across every item, whose due date is at
  most \<open>now\<close>: each appears once, as a \<open>ReviewItem\<close> with its word, its meaning, its
  index and the item's id, and no meaning due after \<open>now\<close> appears.
\<close>

theorem allDueMeanings_exact:
  "set (allDueMeanings now vocabList) =
     {\<lparr>word = VocabItem.word item, meaning = meanings item ! index,
       meaningIndex = index, wordId = id' item\<rparr> | item index.
      item \<in> set vocabList \<and> index < length (meanings item)
      \<and> lessEq (next_review_date (meanings item ! index)) now}
   \<and> length (allDueMeanings now vocabList) =
       sum_list (map (\<lambda>item. length (filter (\<lambda>m. lessEq (next_review_date m) now)
                                            (meanings item))) vocabList)
   \<and> (\<forall>r \<in> set (allDueMeanings now vocabList).
         \<exists>t. next_review_date (meaning r) = Num t \<and> t \<le> now)"
proof -
  have s: "set (allDueMeanings now vocabList) =
     {\<lparr>word = VocabItem.word item, meaning = meanings item ! index,
       meaningIndex = index, wordId = id' item\<rparr> | item index.
      item \<in> set vocabList \<and> index < length (meanings item)
      \<and> lessEq (next_review_date (meanings item ! index)) now}"
    unfolding allDueMeanings_concat set_concat set_map
    by (auto simp: set_dueOf)
  have l: "length (allDueMeanings now vocabList) =
       sum_list (map (\<lambda>item. length (filter (\<lambda>m. lessEq (next_review_date m) now)
                                            (meanings item))) vocabList)"
    by (simp add: allDueMeanings_concat length_concat comp_def length_dueOf)
  have d: "\<forall>r \<in> set (allDueMeanings now vocabList).
         \<exists>t. next_review_date (meaning r) = Num t \<and> t \<le> now"
  proof
    fix r
    assume "r \<in> set (allDueMeanings now vocabList)"
    then obtain item :: VocabData and index where "r = \<lparr>word = VocabItem.word item,
        meaning = meanings item ! index, meaningIndex = index, wordId = id' item\<rparr>"
      and "lessEq (next_review_date (meanings item ! index)) now"
      unfolding s by auto
    then show "\<exists>t. next_review_date (meaning r) = Num t \<and> t \<le> now"
      by (simp add: lessEq_iff)
  qed
  from s l d show ?thesis by blast
qed

theorem allDueMeanings_exact_witness:
  "allDueMeanings 1000 sampleList =
     [\<lparr>word = ''book'', meaning = sampleMeaning 0 (Num 500), meaningIndex = 0, wordId = ''1''\<rparr>,
      \<lparr>word = ''run'', meaning = sampleMeaning 1 (Num 1000), meaningIndex = 0, wordId = ''2''\<rparr>]
   \<and> length (allDueMeanings 1000 sampleList) = 2
   \<and> (\<exists>t. next_review_date (meaning (allDueMeanings 1000 sampleList ! 1)) = Num t \<and> t \<le> 1000)"
proof -
  have v: "allDueMeanings 1000 sampleList =
     [\<lparr>word = ''book'', meaning = sampleMeaning 0 (Num 500), meaningIndex = 0, wordId = ''1''\<rparr>,
      \<lparr>word = ''run'', meaning = sampleMeaning 1 (Num 1000), meaningIndex = 0, wordId = ''2''\<rparr>]"
    by (simp add: allDueMeanings_def sampleList_def sampleItem_def sampleMeaning_def
        MeaningContent.extend_def Meaning.fields_def lessEq_def enumerate_eq_zip upt_rec)
  have "allDueMeanings 1000 sampleList ! 1 \<in> set (allDueMeanings 1000 sampleList)"
    by (simp add: v)
  with allDueMeanings_exact [of 1000 sampleList] v show ?thesis
    by auto
qed

section \<open>The selection of a session\<close>

lemma sampleMeaning_level: "srs_level (sampleMeaning l d) = l"
  by (simp add: sampleMeaning_def MeaningContent.extend_def Meaning.fields_def)

lemma sorted_take_drop:
  assumes "sorted (map f xs)"
  shows "\<forall>x \<in> set (take n xs). \<forall>y \<in> set (drop n xs). f x \<le> f y"
proof -
  have "sorted (map f (take n xs) @ map f (drop n xs))"
    using assms by (simp flip: map_append)
  then show ?thesis
    by (auto simp: sorted_append)
qed

lemma excluded_mset:
  "mset due - mset (itemsForReview due)
     = mset (drop 10 (sort_key (\<lambda>a. srs_level (meaning a)) due))"
proof -
  let ?s = "sort_key (\<lambda>a. srs_level (meaning a)) due"
  have "mset due = mset (take 10 ?s) + mset (drop 10 ?s)"
    by (simp flip: mset_append)
  then show ?thesis
    by (simp add: itemsForReview_def)
qed

lemma itemsForReview_before_excluded:
  "\<forall>x \<in> set (itemsForReview due). \<forall>y \<in># mset due - mset (itemsForReview due).
     srs_level (meaning x) \<le> srs_level (meaning y)"
proof -
  have "\<forall>x \<in> set (take 10 (sort_key (\<lambda>a. srs_level (meaning a)) due)).
        \<forall>y \<in> set (drop 10 (sort_key (\<lambda>a. srs_level (meaning a)) due)).
          srs_level (meaning x) \<le> srs_level (meaning y)"
    by (rule sorted_take_drop) simp
  then show ?thesis
    by (simp add: excluded_mset) (simp add: itemsForReview_def)
qed

lemma itemsForReview_sorted: "sorted (map (\<lambda>a. srs_level (meaning a)) (itemsForReview due))"
  unfolding itemsForReview_def take_map [symmetric]
  by (rule sorted_wrt_take) simp

lemma itemsForReview_length: "length (itemsForReview due) \<le> 10"
  by (simp add: itemsForReview_def)

lemma itemsForReview_mset: "mset (itemsForReview due) \<subseteq># mset due"
proof -
  let ?s = "sort_key (\<lambda>a. srs_level (meaning a)) due"
  have "mset (take 10 ?s) \<subseteq># mset (take 10 ?s) + mset (drop 10 ?s)"
    by simp
  also have "\<dots> = mset due"
    by (simp flip: mset_append)
  finally show ?thesis
    by (simp add: itemsForReview_def)
qed

text \<open>Once an item above level \<open>l\<close> is selected, every due item up to level \<open>l\<close> is.\<close>

lemma itemsForReview_lower_levels_first:
  assumes "x \<in> set (itemsForReview due)" and "l < srs_level (meaning x)"
  shows "filter_mset (\<lambda>a. srs_level (meaning a) \<le> l) (mset due) \<subseteq># mset (itemsForReview due)"
proof -
  let ?in = "mset (itemsForReview due)"
  let ?out = "mset due - mset (itemsForReview due)"
  have split: "mset due = ?in + ?out"
    using itemsForReview_mset [of due] by simp
  have "\<forall>y \<in># ?out. \<not> srs_level (meaning y) \<le> l"
    using itemsForReview_before_excluded [of due] assms by fastforce
  then have "filter_mset (\<lambda>a. srs_level (meaning a) \<le> l) ?out = {#}"
    by (simp only: filter_mset_eq_mempty_iff) blast
  then have "filter_mset (\<lambda>a. srs_level (meaning a) \<le> l) (mset due)
      = filter_mset (\<lambda>a. srs_level (meaning a) \<le> l) ?in"
    by (subst split) simp
  then show ?thesis
    by simp
qed

text \<open>The same for every permutation of the selected items, as a session is.\<close>

lemma session_priority:
  assumes "mset session = mset (itemsForReview due)"
  shows "\<forall>x \<in> set session. \<forall>y \<in># mset due - mset session.
           srs_level (meaning x) \<le> srs_level (meaning y)"
proof -
  from assms have "set session = set (itemsForReview due)"
    by (rule mset_eq_setD)
  with assms itemsForReview_before_excluded [of due] show ?thesis
    by simp
qed

text \<open>
  C5. Selection by priority: after the sort by level and the cut to the first 10 entries,
  every selected item has a level at most that of every due item left out, the selected
  items are in ascending order of level, and once an item above some level is selected,
  every due item up to that level is selected (every level-0 item before any item of
  level 3 or higher). The first holds as well of every permutation of the selected items,
  which is what the random sort returns.
\<close>

theorem itemsForReview_priority:
  "(\<forall>x \<in> set (itemsForReview due). \<forall>y \<in># mset due - mset (itemsForReview due).
      srs_level (meaning x) \<le> srs_level (meaning y))
   \<and> sorted (map (\<lambda>a. srs_level (meaning a)) (itemsForReview due))
   \<and> (\<forall>x \<in> set (itemsForReview due). \<forall>l. l < srs_level (meaning x) \<longrightarrow>
        filter_mset (\<lambda>a. srs_level (meaning a) \<le> l) (mset due)
          \<subseteq># mset (itemsForReview due))
   \<and> (\<forall>session. mset session = mset (itemsForReview due) \<longrightarrow>
        (\<forall>x \<in> set session. \<forall>y \<in># mset due - mset session.
           srs_level (meaning x) \<le> srs_level (meaning y)))"
  using itemsForReview_before_excluded [of due] itemsForReview_sorted [of due]
    itemsForReview_lower_levels_first [of _ due] session_priority [of _ due]
  by blast

lemma sampleDue12_levels:
  "map (\<lambda>a. srs_level (meaning a)) (itemsForReview sampleDue12) = [0, 0, 0, 1, 1, 2, 2, 3, 4, 5]"
  by (simp add: itemsForReview_def sampleDue12_def enumerate_eq_zip upt_rec sampleMeaning_level)

lemma sampleDue12_indices:
  "map meaningIndex (itemsForReview sampleDue12) = [1, 3, 7, 5, 11, 4, 9, 0, 6, 2]"
  by (simp add: itemsForReview_def sampleDue12_def enumerate_eq_zip upt_rec sampleMeaning_level)

theorem itemsForReview_priority_witness:
  "length sampleDue12 = 12
   \<and> map (\<lambda>a. srs_level (meaning a)) (itemsForReview sampleDue12) = [0, 0, 0, 1, 1, 2, 2, 3, 4, 5]
   \<and> map meaningIndex (itemsForReview sampleDue12) = [1, 3, 7, 5, 11, 4, 9, 0, 6, 2]
   \<and> filter_mset (\<lambda>a. srs_level (meaning a) \<le> 0) (mset sampleDue12)
        \<subseteq># mset (itemsForReview sampleDue12)"
proof -
  let ?x = "itemsForReview sampleDue12 ! 7"
  have len: "length (itemsForReview sampleDue12) = 10"
    using arg_cong [OF sampleDue12_levels, of length] by simp
  then have x: "?x \<in> set (itemsForReview sampleDue12)"
    by simp
  have "map (\<lambda>a. srs_level (meaning a)) (itemsForReview sampleDue12) ! 7 = 3"
    by (simp only: sampleDue12_levels) simp
  then have "srs_level (meaning ?x) = 3"
    using len by simp
  then have "0 < srs_level (meaning ?x)"
    by simp
  with itemsForReview_priority [of sampleDue12] x
  have "filter_mset (\<lambda>a. srs_level (meaning a) \<le> 0) (mset sampleDue12)
        \<subseteq># mset (itemsForReview sampleDue12)"
    by blast
  moreover have "length sampleDue12 = 12"
    by (simp add: sampleDue12_def)
  ultimately show ?thesis
    using sampleDue12_levels sampleDue12_indices by blast
qed

subsection \<open>The sample engine permutes\<close>

lemma mset_insertRandom: "mset (snd (insertRandom r x ys)) = add_mset x (mset ys)"
  by (induction r x ys rule: insertRandom.induct) (auto split: prod.splits)

lemma mset_fold_insertRandom:
  "mset (snd (fold (\<lambda>x (r, sorted). insertRandom r x sorted) xs (r, acc))) = mset xs + mset acc"
proof (induction xs arbitrary: r acc)
  case Nil
  then show ?case by simp
next
  case (Cons x xs)
  obtain r' acc' where step: "insertRandom r x acc = (r', acc')"
    by (cases "insertRandom r x acc")
  then have "mset acc' = add_mset x (mset acc)"
    using mset_insertRandom [of r x acc] by simp
  with Cons.IH [of r' acc'] step show ?case
    by simp
qed

lemma mset_insertionSort: "mset (insertionSort r xs) = mset xs"
  by (simp add: insertionSort_def mset_fold_insertRandom)

lemma sampleList3_due:
  "itemsForReview (allDueMeanings 1000 sampleList3) =
     [\<lparr>word = ''book'', meaning = sampleMeaning 0 (Num 500), meaningIndex = 0, wordId = ''1''\<rparr>,
      \<lparr>word = ''book'', meaning = sampleMeaning 1 (Num 600), meaningIndex = 1, wordId = ''1''\<rparr>,
      \<lparr>word = ''run'', meaning = sampleMeaning 2 (Num 1000), meaningIndex = 0, wordId = ''2''\<rparr>]"
  by (simp add: itemsForReview_def allDueMeanings_def sampleList3_def sampleItem_def
      sampleMeaning_def MeaningContent.extend_def Meaning.fields_def lessEq_def
      enumerate_eq_zip upt_rec)

lemma sampleList3_session:
  "startReviewSession insertionSort [True, False] 1000 sampleList3 =
     [\<lparr>word = ''book'', meaning = sampleMeaning 1 (Num 600), meaningIndex = 1, wordId = ''1''\<rparr>,
      \<lparr>word = ''book'', meaning = sampleMeaning 0 (Num 500), meaningIndex = 0, wordId = ''1''\<rparr>,
      \<lparr>word = ''run'', meaning = sampleMeaning 2 (Num 1000), meaningIndex = 0, wordId = ''2''\<rparr>]"
  by (simp add: startReviewSession_def sampleList3_due insertionSort_def)

text \<open>
  C6. A session has at most 10 items, each of them one of the due items it was built from:
  so for the cut of the sorted list, and so after the engine's random sort, when that sort
  returns a permutation of its array.
\<close>

theorem session_at_most_ten_of_input:
  assumes "\<And>xs. mset (randomSort r xs) = mset xs"
  shows "length (itemsForReview due) \<le> 10 \<and> mset (itemsForReview due) \<subseteq># mset due
       \<and> length (randomSort r (itemsForReview due)) \<le> 10
       \<and> mset (randomSort r (itemsForReview due)) \<subseteq># mset due
       \<and> set (randomSort r (itemsForReview due)) \<subseteq> set due
       \<and> length (startReviewSession randomSort r now vocabList) \<le> 10
       \<and> set (startReviewSession randomSort r now vocabList)
            \<subseteq> set (allDueMeanings now vocabList)"
proof -
  have bounded: "length (randomSort r (itemsForReview xs)) \<le> 10
      \<and> mset (randomSort r (itemsForReview xs)) \<subseteq># mset xs
      \<and> set (randomSort r (itemsForReview xs)) \<subseteq> set xs" for xs
  proof -
    have m: "mset (randomSort r (itemsForReview xs)) = mset (itemsForReview xs)"
      by (rule assms)
    then have "length (randomSort r (itemsForReview xs)) = length (itemsForReview xs)"
      by (rule mset_eq_length)
    moreover from m have "mset (randomSort r (itemsForReview xs)) \<subseteq># mset xs"
      by (simp add: itemsForReview_mset)
    moreover from this have "set (randomSort r (itemsForReview xs)) \<subseteq> set xs"
      using set_mset_mono by fastforce
    ultimately show ?thesis
      using itemsForReview_length [of xs] by simp
  qed
  from bounded [of due] bounded [of "allDueMeanings now vocabList"]
    itemsForReview_length [of due] itemsForReview_mset [of due]
  show ?thesis
    by (simp add: startReviewSession_def)
qed

theorem session_at_most_ten_of_input_witness:
  "(\<forall>xs :: ReviewItem list. mset (insertionSort [True, False] xs) = mset xs)
   \<and> length (startReviewSession insertionSort [True, False] 1000 sampleList3) = 3
   \<and> length (startReviewSession insertionSort [True, False] 1000 sampleList3) \<le> 10
   \<and> set (startReviewSession insertionSort [True, False] 1000 sampleList3)
        \<subseteq> set (allDueMeanings 1000 sampleList3)
   \<and> length (itemsForReview sampleDue12) = 10
   \<and> mset (itemsForReview sampleDue12) \<subseteq># mset sampleDue12"
proof -
  have "length (itemsForReview sampleDue12) = 10"
    using arg_cong [OF sampleDue12_levels, of length] by simp
  moreover have "length (startReviewSession insertionSort [True, False] 1000 sampleList3) = 3"
    by (simp only: sampleList3_session) simp
  ultimately show ?thesis
    using session_at_most_ten_of_input
      [of insertionSort "[True, False]" sampleDue12 1000 sampleList3, OF mset_insertionSort]
      mset_insertionSort [of "[True, False]"]
    by blast
qed

subsection \<open>The order of a session\<close>

text \<open>\<open>perms\<close> lists the permutations of a list, all of them.\<close>

lemma in_perms_Cons:
  "ys \<in> set (perms (x # xs)) \<longleftrightarrow>
     (\<exists>p \<in> set (perms xs). \<exists>i \<in> {0..<Suc (length p)}. ys = take i p @ x # drop i p)"
proof -
  have "set (perms (x # xs))
      = (\<Union>p \<in> set (perms xs). (\<lambda>i. take i p @ x # drop i p) ` {0..<Suc (length p)})"
    by (simp del: upt_Suc)
  then show ?thesis
    by (simp only: UN_iff image_iff)
qed

lemma set_perms: "set (perms xs) = {ys. mset ys = mset xs}"
proof (induction xs)
  case Nil
  then show ?case by simp
next
  case (Cons x xs)
  show ?case
  proof (intro set_eqI iffI)
    fix ys
    assume "ys \<in> set (perms (x # xs))"
    then obtain p i where p: "p \<in> set (perms xs)" and ys: "ys = take i p @ x # drop i p"
      unfolding in_perms_Cons by blast
    from p Cons.IH have "mset p = mset xs"
      by simp
    moreover have "mset (take i p) + mset (drop i p) = mset p"
      by (metis append_take_drop_id mset_append)
    then have "mset ys = add_mset x (mset p)"
      unfolding ys by simp
    ultimately show "ys \<in> {ys. mset ys = mset (x # xs)}"
      by simp
  next
    fix ys
    assume "ys \<in> {ys. mset ys = mset (x # xs)}"
    then have m: "mset ys = add_mset x (mset xs)"
      by simp
    then have "x \<in># mset ys"
      by simp
    then have "x \<in> set ys"
      by simp
    then obtain as bs where ys: "ys = as @ x # bs"
      by (auto dest: split_list)
    with m have "mset (as @ bs) = mset xs"
      by simp
    with Cons.IH have "as @ bs \<in> set (perms xs)"
      by simp
    moreover have "length as \<in> {0..<Suc (length (as @ bs))}"
      by simp
    moreover have "ys = take (length as) (as @ bs) @ x # drop (length as) (as @ bs)"
      by (simp add: ys)
    ultimately show "ys \<in> set (perms (x # xs))"
      unfolding in_perms_Cons by blast
  qed
qed

lemma perms3:
  "perms [a, b, c] = [[a, b, c], [b, a, c], [b, c, a], [a, c, b], [c, a, b], [c, b, a]]"
  by (simp add: upt_rec)

lemma two_power_mod3: "(2::nat) ^ n mod 3 \<noteq> 0"
proof (induction n)
  case 0
  then show ?case by simp
next
  case (Suc n)
  then have "(2 * 2 ^ n) mod 3 \<noteq> (0::nat)"
    by presburger
  then show ?case by simp
qed

lemma sum_indicator_distinct:
  assumes "distinct ps" and "a \<in> set ps"
  shows "sum_list (map (\<lambda>p. if a = p then 1 else 0) ps) = (1::nat)"
  using assms
proof (induction ps)
  case Nil
  then show ?case by simp
next
  case (Cons p ps)
  show ?case
  proof (cases "a = p")
    case True
    with Cons.prems have "a \<notin> set ps" by simp
    then have "sum_list (map (\<lambda>p. if a = p then 1 else 0) ps) = (0::nat)"
      by (induction ps) auto
    with True show ?thesis by simp
  next
    case False
    with Cons show ?thesis by simp
  qed
qed

lemma count_partition:
  assumes "distinct ps" and "\<forall>r \<in> set R. f r \<in> set ps"
  shows "sum_list (map (\<lambda>p. length (filter (\<lambda>r. f r = p) R)) ps) = length R"
  using assms(2)
proof (induction R)
  case Nil
  then show ?case by simp
next
  case (Cons r R)
  have "sum_list (map (\<lambda>p. length (filter (\<lambda>r. f r = p) (r # R))) ps)
      = sum_list (map (\<lambda>p. (if f r = p then 1 else 0) + length (filter (\<lambda>r. f r = p) R)) ps)"
    by (rule arg_cong [where f = sum_list]) (simp add: fun_eq_iff)
  also have "\<dots> = sum_list (map (\<lambda>p. if f r = p then 1 else 0) ps)
                  + sum_list (map (\<lambda>p. length (filter (\<lambda>r. f r = p) R)) ps)"
    by (simp add: sum_list_addf)
  also have "\<dots> = 1 + length R"
    using Cons sum_indicator_distinct [OF assms(1), of "f r"] by simp
  finally show ?case by simp
qed

lemma sum_list_constant:
  assumes "\<forall>p \<in> set ps. g p = (c::nat)"
  shows "sum_list (map g ps) = length ps * c"
  using assms by (induction ps) simp_all

lemma distinct_perms3:
  assumes "distinct [a, b, c]"
  shows "distinct (perms [a, b, c])"
  using assms unfolding perms3 by auto

lemma no_uniform_random_sort:
  assumes three: "itemsForReview (allDueMeanings now vocabList) = [a, b, c]"
    and d: "distinct [a, b, c]"
    and perm: "\<forall>r. mset (randomSort r [a, b, c]) = mset [a, b, c]"
  shows "\<not> equallyLikely n randomSort now vocabList"
proof
  assume eq: "equallyLikely n randomSort now vocabList"
  let ?R = "List.n_lists n [False, True]"
  let ?f = "\<lambda>r. startReviewSession randomSort r now vocabList"
  let ?ps = "perms [a, b, c]"
  let ?c = "sessionCount n randomSort now vocabList [a, b, c]"
  have f: "?f r = randomSort r [a, b, c]" for r
    by (simp add: startReviewSession_def three)
  have inside: "\<forall>r \<in> set ?R. ?f r \<in> set ?ps"
  proof
    fix r
    from perm have "mset (randomSort r [a, b, c]) = mset [a, b, c]"
      by blast
    then have "randomSort r [a, b, c] \<in> set ?ps"
      by (simp only: set_perms mem_Collect_eq)
    then show "?f r \<in> set ?ps"
      by (simp only: f)
  qed
  have count: "sessionCount n randomSort now vocabList
      = (\<lambda>p. length (filter (\<lambda>r. ?f r = p) ?R))"
    by (simp add: fun_eq_iff sessionCount_def)
  have "length [False, True] = 2"
    by simp
  then have len: "length ?R = 2 ^ n"
    by (simp only: length_n_lists)
  have "sum_list (map (\<lambda>p. length (filter (\<lambda>r. ?f r = p) ?R)) ?ps) = length ?R"
    using distinct_perms3 [OF d] inside by (rule count_partition)
  then have total: "sum_list (map (sessionCount n randomSort now vocabList) ?ps) = 2 ^ n"
    by (simp only: count len)
  have "[a, b, c] \<in> set ?ps"
    unfolding perms3 by simp
  moreover from eq have "\<forall>p \<in> set ?ps. \<forall>q \<in> set ?ps.
      sessionCount n randomSort now vocabList p = sessionCount n randomSort now vocabList q"
    by (simp only: equallyLikely_def three Let_def list_all_iff)
  ultimately have "\<forall>p \<in> set ?ps. sessionCount n randomSort now vocabList p = ?c"
    by blast
  then have "sum_list (map (sessionCount n randomSort now vocabList) ?ps) = length ?ps * ?c"
    by (rule sum_list_constant)
  moreover have "length ?ps = 6"
    unfolding perms3 by simp
  ultimately have "(2::nat) ^ n = 6 * ?c"
    using total by (simp only:)
  then have "(2::nat) ^ n mod 3 = 0"
    by presburger
  with two_power_mod3 [of n] show False
    by simp
qed

text \<open>
  C7, as stated, fails in its last part ("each permutation being equally likely"). With
  three selected items no random sort makes the six orders equally likely: whatever the
  engine and however many fair bits it reads, the counts of the six orders add up to a
  power of two, which is no multiple of six.
\<close>

theorem uniform_shuffle_counterexample:
  "\<not> (\<exists>n randomSort.
        (\<forall>r. mset (startReviewSession randomSort r 1000 sampleList3)
               = mset (itemsForReview (allDueMeanings 1000 sampleList3)))
        \<and> equallyLikely n randomSort 1000 sampleList3)"
proof
  assume "\<exists>n randomSort.
        (\<forall>r. mset (startReviewSession randomSort r 1000 sampleList3)
               = mset (itemsForReview (allDueMeanings 1000 sampleList3)))
        \<and> equallyLikely n randomSort 1000 sampleList3"
  then obtain n randomSort
    where perm: "\<forall>r. mset (startReviewSession randomSort r 1000 sampleList3)
               = mset (itemsForReview (allDueMeanings 1000 sampleList3))"
      and eq: "equallyLikely n randomSort 1000 sampleList3"
    by blast
  let ?a = "\<lparr>word = ''book'', meaning = sampleMeaning 0 (Num 500), meaningIndex = 0, wordId = ''1''\<rparr>"
  let ?b = "\<lparr>word = ''book'', meaning = sampleMeaning 1 (Num 600), meaningIndex = 1, wordId = ''1''\<rparr>"
  let ?c = "\<lparr>word = ''run'', meaning = sampleMeaning 2 (Num 1000), meaningIndex = 0, wordId = ''2''\<rparr>"
  have d: "distinct [?a, ?b, ?c]"
    by simp
  from perm have "\<forall>r. mset (randomSort r [?a, ?b, ?c]) = mset [?a, ?b, ?c]"
    by (simp add: startReviewSession_def sampleList3_due)
  with sampleList3_due d have "\<not> equallyLikely n randomSort 1000 sampleList3"
    by (rule no_uniform_random_sort)
  with eq show False
    by simp
qed

text \<open>Under the sample engine with three coins, two orders are twice as likely as the others.\<close>

lemma insertionSort_not_uniform:
  "sessionCount 3 insertionSort 1000 sampleList3
     [\<lparr>word = ''book'', meaning = sampleMeaning 0 (Num 500), meaningIndex = 0, wordId = ''1''\<rparr>,
      \<lparr>word = ''book'', meaning = sampleMeaning 1 (Num 600), meaningIndex = 1, wordId = ''1''\<rparr>,
      \<lparr>word = ''run'', meaning = sampleMeaning 2 (Num 1000), meaningIndex = 0, wordId = ''2''\<rparr>] = 2
   \<and> sessionCount 3 insertionSort 1000 sampleList3
     [\<lparr>word = ''run'', meaning = sampleMeaning 2 (Num 1000), meaningIndex = 0, wordId = ''2''\<rparr>,
      \<lparr>word = ''book'', meaning = sampleMeaning 1 (Num 600), meaningIndex = 1, wordId = ''1''\<rparr>,
      \<lparr>word = ''book'', meaning = sampleMeaning 0 (Num 500), meaningIndex = 0, wordId = ''1''\<rparr>] = 1"
  by (simp add: sessionCount_def startReviewSession_def sampleList3_due insertionSort_def
      numeral_3_eq_3 sampleMeaning_def MeaningContent.extend_def Meaning.fields_def)

text \<open>Every engine of exchanges permutes its array.\<close>

lemma mset_exchange: "mset (exchange i j xs) = mset xs"
  by (simp add: exchange_def mset_swap)

lemma mset_run: "mset (run k r xs) = mset xs"
proof (induction k arbitrary: r xs)
  case Stop
  then show ?case by simp
next
  case (Exchange i j k)
  then show ?case by (simp add: mset_exchange)
next
  case (Compare f)
  show ?case
  proof (cases r)
    case Nil
    then show ?thesis by simp
  next
    case (Cons c r')
    have "f c \<in> range f" by simp
    then have "mset (run (f c) r' xs) = mset xs"
      by (rule Compare.IH)
    with Cons show ?thesis by simp
  qed
qed

lemma mset_engineSort: "mset (engineSort engine r xs) = mset xs"
  by (simp add: engineSort_def mset_run)

text \<open>What the session is under every sort that permutes its array.\<close>

lemma permuting_session:
  assumes perm: "\<And>r xs. mset (randomSort r xs) = mset xs"
  shows "mset (startReviewSession randomSort r now vocabList)
           = mset (take 10 (sort_key (\<lambda>a. srs_level (meaning a)) (allDueMeanings now vocabList)))
       \<and> length (startReviewSession randomSort r now vocabList)
           = min 10 (length (allDueMeanings now vocabList))
       \<and> mset (startReviewSession randomSort r now vocabList)
           \<subseteq># mset (allDueMeanings now vocabList)
       \<and> (\<forall>x \<in> set (startReviewSession randomSort r now vocabList).
            \<forall>y \<in># mset (allDueMeanings now vocabList)
                    - mset (startReviewSession randomSort r now vocabList).
              srs_level (meaning x) \<le> srs_level (meaning y))
       \<and> mset (startReviewSession randomSort r now vocabList)
           = mset (startReviewSession randomSort r' now vocabList)"
proof -
  let ?due = "allDueMeanings now vocabList"
  have m: "mset (startReviewSession randomSort r now vocabList) = mset (itemsForReview ?due)" for r
    unfolding startReviewSession_def by (rule perm)
  have cut: "mset (startReviewSession randomSort r now vocabList)
           = mset (take 10 (sort_key (\<lambda>a. srs_level (meaning a)) ?due))"
    using m [of r] by (simp only: itemsForReview_def)
  have "length (startReviewSession randomSort r now vocabList) = length (itemsForReview ?due)"
    using m [of r] by (rule mset_eq_length)
  then have len: "length (startReviewSession randomSort r now vocabList) = min 10 (length ?due)"
    by (simp add: itemsForReview_def min.commute)
  have sub: "mset (startReviewSession randomSort r now vocabList) \<subseteq># mset ?due"
    by (simp only: m itemsForReview_mset)
  have prio: "\<forall>x \<in> set (startReviewSession randomSort r now vocabList).
         \<forall>y \<in># mset ?due - mset (startReviewSession randomSort r now vocabList).
           srs_level (meaning x) \<le> srs_level (meaning y)"
    using m [of r] by (rule session_priority)
  have same: "mset (startReviewSession randomSort r now vocabList)
           = mset (startReviewSession randomSort r' now vocabList)"
    by (simp only: m)
  from cut len sub prio same show ?thesis
    by blast
qed

lemma sampleList3_engine_session:
  "startReviewSession (engineSort insertionEngine) [True, False] 1000 sampleList3 =
     [\<lparr>word = ''book'', meaning = sampleMeaning 1 (Num 600), meaningIndex = 1, wordId = ''1''\<rparr>,
      \<lparr>word = ''book'', meaning = sampleMeaning 0 (Num 500), meaningIndex = 0, wordId = ''1''\<rparr>,
      \<lparr>word = ''run'', meaning = sampleMeaning 2 (Num 1000), meaningIndex = 0, wordId = ''2''\<rparr>]"
  by (simp add: startReviewSession_def sampleList3_due engineSort_def insertionEngine_def
      exchange_def upt_rec numeral_3_eq_3)

lemma sampleList3_engine_session_no_move:
  "startReviewSession (engineSort insertionEngine) [False, False] 1000 sampleList3 =
     [\<lparr>word = ''book'', meaning = sampleMeaning 0 (Num 500), meaningIndex = 0, wordId = ''1''\<rparr>,
      \<lparr>word = ''book'', meaning = sampleMeaning 1 (Num 600), meaningIndex = 1, wordId = ''1''\<rparr>,
      \<lparr>word = ''run'', meaning = sampleMeaning 2 (Num 1000), meaningIndex = 0, wordId = ''2''\<rparr>]"
  by (simp add: startReviewSession_def sampleList3_due engineSort_def insertionEngine_def
      exchange_def upt_rec numeral_3_eq_3)

text \<open>
  C7 (amended). The last step sorts the selected items under a random comparator. For
  every engine whose sort is a program of comparator calls and exchanges, and every state
  of the random source, the session is a permutation (the same multiset) of the first 10
  entries by priority: it has the smaller of 10 and the number of due meanings as its
  length, all its items are due, each has a level at most that of every due meaning left
  out, and it is the same multiset under every other state of the source. So priority
  decides which items are in the session and not their order. The orders need not be
  equally likely: with three distinct selected items they never are.
\<close>

theorem session_is_permutation:
  "mset (startReviewSession (engineSort engine) r now vocabList)
     = mset (take 10 (sort_key (\<lambda>a. srs_level (meaning a)) (allDueMeanings now vocabList)))
   \<and> length (startReviewSession (engineSort engine) r now vocabList)
       = min 10 (length (allDueMeanings now vocabList))
   \<and> mset (startReviewSession (engineSort engine) r now vocabList)
       \<subseteq># mset (allDueMeanings now vocabList)
   \<and> (\<forall>x \<in> set (startReviewSession (engineSort engine) r now vocabList).
        \<forall>y \<in># mset (allDueMeanings now vocabList)
                - mset (startReviewSession (engineSort engine) r now vocabList).
          srs_level (meaning x) \<le> srs_level (meaning y))
   \<and> mset (startReviewSession (engineSort engine) r now vocabList)
       = mset (startReviewSession (engineSort engine) r' now vocabList)
   \<and> (itemsForReview (allDueMeanings now vocabList) = [a, b, c] \<and> distinct [a, b, c] \<longrightarrow>
        \<not> equallyLikely n (engineSort bits) now vocabList)"
proof -
  have "\<forall>r. mset (engineSort bits r [a, b, c]) = mset [a, b, c]"
    by (simp only: mset_engineSort simp_thms)
  then have "itemsForReview (allDueMeanings now vocabList) = [a, b, c] \<and> distinct [a, b, c] \<longrightarrow>
        \<not> equallyLikely n (engineSort bits) now vocabList"
    using no_uniform_random_sort [of now vocabList a b c "engineSort bits" n] by blast
  moreover have "\<And>r xs :: ReviewItem list. mset (engineSort engine r xs) = mset xs"
    by (rule mset_engineSort)
  note permuting_session [of "engineSort engine" r now vocabList r', OF this]
  ultimately show ?thesis
    by blast
qed

theorem session_is_permutation_witness:
  "startReviewSession (engineSort insertionEngine) [True, False] 1000 sampleList3
     = [itemsForReview (allDueMeanings 1000 sampleList3) ! 1,
        itemsForReview (allDueMeanings 1000 sampleList3) ! 0,
        itemsForReview (allDueMeanings 1000 sampleList3) ! 2]
   \<and> startReviewSession (engineSort insertionEngine) [False, False] 1000 sampleList3
     = itemsForReview (allDueMeanings 1000 sampleList3)
   \<and> mset (startReviewSession (engineSort insertionEngine) [True, False] 1000 sampleList3)
     = mset (take 10 (sort_key (\<lambda>a. srs_level (meaning a)) (allDueMeanings 1000 sampleList3)))
   \<and> length (startReviewSession (engineSort insertionEngine) [True, False] 1000 sampleList3) = 3
   \<and> mset (startReviewSession (engineSort insertionEngine) [True, False] 1000 sampleList3)
     = mset (startReviewSession (engineSort insertionEngine) [False, False] 1000 sampleList3)
   \<and> \<not> equallyLikely 3 (engineSort insertionEngine) 1000 sampleList3"
proof -
  let ?a = "\<lparr>word = ''book'', meaning = sampleMeaning 0 (Num 500), meaningIndex = 0, wordId = ''1''\<rparr>"
  let ?b = "\<lparr>word = ''book'', meaning = sampleMeaning 1 (Num 600), meaningIndex = 1, wordId = ''1''\<rparr>"
  let ?c = "\<lparr>word = ''run'', meaning = sampleMeaning 2 (Num 1000), meaningIndex = 0, wordId = ''2''\<rparr>"
  have order: "startReviewSession (engineSort insertionEngine) [True, False] 1000 sampleList3
     = [itemsForReview (allDueMeanings 1000 sampleList3) ! 1,
        itemsForReview (allDueMeanings 1000 sampleList3) ! 0,
        itemsForReview (allDueMeanings 1000 sampleList3) ! 2]"
    by (simp only: sampleList3_engine_session sampleList3_due) simp
  have same: "startReviewSession (engineSort insertionEngine) [False, False] 1000 sampleList3
     = itemsForReview (allDueMeanings 1000 sampleList3)"
    by (simp only: sampleList3_engine_session_no_move sampleList3_due)
  have len: "length (allDueMeanings 1000 sampleList3) = 3"
    by (simp add: allDueMeanings_def sampleList3_def sampleItem_def
      sampleMeaning_def MeaningContent.extend_def Meaning.fields_def lessEq_def
      enumerate_eq_zip upt_rec)
  have d: "distinct [?a, ?b, ?c]"
    by simp
  note t = session_is_permutation
    [of insertionEngine "[True, False]" 1000 sampleList3 "[False, False]" ?a ?b ?c 3 insertionEngine]
  from t have m: "mset (startReviewSession (engineSort insertionEngine) [True, False] 1000 sampleList3)
     = mset (take 10 (sort_key (\<lambda>a. srs_level (meaning a)) (allDueMeanings 1000 sampleList3)))"
    by blast
  from t have "length (startReviewSession (engineSort insertionEngine) [True, False] 1000 sampleList3)
     = min 10 (length (allDueMeanings 1000 sampleList3))"
    by blast
  then have l: "length (startReviewSession (engineSort insertionEngine) [True, False] 1000 sampleList3) = 3"
    by (simp only: len)
  from t have e: "mset (startReviewSession (engineSort insertionEngine) [True, False] 1000 sampleList3)
     = mset (startReviewSession (engineSort insertionEngine) [False, False] 1000 sampleList3)"
    by blast
  from t sampleList3_due d have n: "\<not> equallyLikely 3 (engineSort insertionEngine) 1000 sampleList3"
    by blast
  from order same m l e n show ?thesis
    by blast
qed

section \<open>The frame of an update\<close>

lemma arraySet_other:
  assumes "j < length xs" and "j \<noteq> i"
  shows "arraySet xs i v ! j = xs ! j"
  using assms by (simp add: arraySet_def nth_append)

lemma arraySet_inside:
  assumes "i < length xs"
  shows "arraySet xs i v ! i = v" and "length (arraySet xs i v) = length xs"
  using assms by (simp_all add: arraySet_def)

lemma arraySet_beyond:
  assumes "\<not> i < length xs"
  shows "arraySet xs i v ! i = v" and "length (arraySet xs i v) = i + 1"
    and "\<forall>j. length xs \<le> j \<and> j < i \<longrightarrow> arraySet xs i v ! j = Empty"
  using assms by (auto simp: arraySet_def nth_append)

lemma recordOutcome_content:
  "recordOutcome now isCorrect m =
     m\<lparr>srs_level := srs_level (recordOutcome now isCorrect m),
       next_review_date := next_review_date (recordOutcome now isCorrect m)\<rparr>"
  by (simp add: recordOutcome_def Let_def)

lemma typedItem_untouched: "typedItem (untouched item) = Some item"
  by (simp add: typedItem_def untouched_def slotMeaning_def list_all_iff comp_def)

lemma updateItem_frame:
  fixes item :: VocabData and now targetId index isCorrect
  defines "item' \<equiv> updateItem now targetId index isCorrect item"
  shows "id' item' = id' item" and "VocabItem.word item' = VocabItem.word item"
    and "id' item \<noteq> targetId \<Longrightarrow> typedItem item' = Some item"
    and "j < length (meanings item) \<Longrightarrow> j \<noteq> index \<Longrightarrow> meanings item' ! j = Present (meanings item ! j)"
    and "id' item = targetId \<Longrightarrow> index < length (meanings item) \<Longrightarrow>
           length (meanings item') = length (meanings item)
           \<and> (\<exists>l d. meanings item' ! index
                  = Present ((meanings item ! index)\<lparr>srs_level := l, next_review_date := d\<rparr>))"
    and "id' item = targetId \<Longrightarrow> \<not> index < length (meanings item) \<Longrightarrow>
           length (meanings item') = index + 1
           \<and> (\<exists>l d. meanings item' ! index = Bare l d)
           \<and> (\<forall>j. length (meanings item) \<le> j \<and> j < index \<longrightarrow> meanings item' ! j = Empty)"
proof -
  show "id' item' = id' item" and "VocabItem.word item' = VocabItem.word item"
    by (simp_all add: item'_def updateItem_def untouched_def)
  show "id' item \<noteq> targetId \<Longrightarrow> typedItem item' = Some item"
    by (simp add: item'_def updateItem_def typedItem_untouched)
  show "j < length (meanings item) \<Longrightarrow> j \<noteq> index \<Longrightarrow> meanings item' ! j = Present (meanings item ! j)"
    by (simp add: item'_def updateItem_def untouched_def arraySet_other)
  show "id' item = targetId \<Longrightarrow> index < length (meanings item) \<Longrightarrow>
           length (meanings item') = length (meanings item)
           \<and> (\<exists>l d. meanings item' ! index
                  = Present ((meanings item ! index)\<lparr>srs_level := l, next_review_date := d\<rparr>))"
    using recordOutcome_content [of now isCorrect "meanings item ! index"]
    by (auto simp: item'_def updateItem_def arraySet_inside)
  show "id' item = targetId \<Longrightarrow> \<not> index < length (meanings item) \<Longrightarrow>
           length (meanings item') = index + 1
           \<and> (\<exists>l d. meanings item' ! index = Bare l d)
           \<and> (\<forall>j. length (meanings item) \<le> j \<and> j < index \<longrightarrow> meanings item' ! j = Empty)"
    using arraySet_beyond [of index "map Present (meanings item)"]
    by (simp add: item'_def updateItem_def recordOutcomeUndefined_def)
qed

lemma handle_no_match:
  assumes "targetId \<notin> id' ` set currentList"
  shows "handleQuizComplete now targetId index isCorrect currentList = map untouched currentList"
  using assms by (auto simp: handleQuizComplete_def updateItem_def)


text \<open>
  C8. The update has no error case and changes nothing but the two scheduling properties
  of the meaning it targets: the new list has the length of the old one; every item keeps
  its id and its word; an item whose id differs from the target is unchanged; in a target
  item every meaning at another index is unchanged, and the meaning at the index keeps
  every property but \<open>srs_level\<close> and \<open>next_review_date\<close>; an index beyond the end of
  the target's array leaves its meanings as they are and grows the array by holes and an
  object with only the two scheduling properties; when no item has the target id the
  whole list is unchanged.
\<close>

theorem handleQuizComplete_frame:
  "length (handleQuizComplete now targetId index isCorrect currentList) = length currentList
   \<and> (\<forall>k < length currentList.
        let item = currentList ! k;
            item' = handleQuizComplete now targetId index isCorrect currentList ! k
        in id' item' = id' item \<and> VocabItem.word item' = VocabItem.word item
         \<and> (id' item \<noteq> targetId \<longrightarrow> typedItem item' = Some item)
         \<and> (\<forall>j < length (meanings item). j \<noteq> index \<longrightarrow>
               meanings item' ! j = Present (meanings item ! j))
         \<and> (id' item = targetId \<and> index < length (meanings item) \<longrightarrow>
               length (meanings item') = length (meanings item)
               \<and> (\<exists>l d. meanings item' ! index
                      = Present ((meanings item ! index)\<lparr>srs_level := l, next_review_date := d\<rparr>)))
         \<and> (id' item = targetId \<and> \<not> index < length (meanings item) \<longrightarrow>
               length (meanings item') = index + 1
               \<and> (\<exists>l d. meanings item' ! index = Bare l d)
               \<and> (\<forall>j. length (meanings item) \<le> j \<and> j < index \<longrightarrow>
                     meanings item' ! j = Empty)))
   \<and> (targetId \<notin> id' ` set currentList \<longrightarrow>
        map typedItem (handleQuizComplete now targetId index isCorrect currentList)
          = map Some currentList)"
proof -
  have len: "length (handleQuizComplete now targetId index isCorrect currentList)
      = length currentList"
    by (simp add: handleQuizComplete_def)
  have nth: "handleQuizComplete now targetId index isCorrect currentList ! k
      = updateItem now targetId index isCorrect (currentList ! k)" if "k < length currentList" for k
    using that by (simp add: handleQuizComplete_def)
  have items: "\<forall>k < length currentList.
        let item = currentList ! k;
            item' = handleQuizComplete now targetId index isCorrect currentList ! k
        in id' item' = id' item \<and> VocabItem.word item' = VocabItem.word item
         \<and> (id' item \<noteq> targetId \<longrightarrow> typedItem item' = Some item)
         \<and> (\<forall>j < length (meanings item). j \<noteq> index \<longrightarrow>
               meanings item' ! j = Present (meanings item ! j))
         \<and> (id' item = targetId \<and> index < length (meanings item) \<longrightarrow>
               length (meanings item') = length (meanings item)
               \<and> (\<exists>l d. meanings item' ! index
                      = Present ((meanings item ! index)\<lparr>srs_level := l, next_review_date := d\<rparr>)))
         \<and> (id' item = targetId \<and> \<not> index < length (meanings item) \<longrightarrow>
               length (meanings item') = index + 1
               \<and> (\<exists>l d. meanings item' ! index = Bare l d)
               \<and> (\<forall>j. length (meanings item) \<le> j \<and> j < index \<longrightarrow>
                     meanings item' ! j = Empty))"
  proof (intro allI impI)
    fix k
    assume "k < length currentList"
    then show "let item = currentList ! k;
            item' = handleQuizComplete now targetId index isCorrect currentList ! k
        in id' item' = id' item \<and> VocabItem.word item' = VocabItem.word item
         \<and> (id' item \<noteq> targetId \<longrightarrow> typedItem item' = Some item)
         \<and> (\<forall>j < length (meanings item). j \<noteq> index \<longrightarrow>
               meanings item' ! j = Present (meanings item ! j))
         \<and> (id' item = targetId \<and> index < length (meanings item) \<longrightarrow>
               length (meanings item') = length (meanings item)
               \<and> (\<exists>l d. meanings item' ! index
                      = Present ((meanings item ! index)\<lparr>srs_level := l, next_review_date := d\<rparr>)))
         \<and> (id' item = targetId \<and> \<not> index < length (meanings item) \<longrightarrow>
               length (meanings item') = index + 1
               \<and> (\<exists>l d. meanings item' ! index = Bare l d)
               \<and> (\<forall>j. length (meanings item) \<le> j \<and> j < index \<longrightarrow>
                     meanings item' ! j = Empty))"
      unfolding Let_def nth [OF \<open>k < length currentList\<close>]
      using updateItem_frame [where item = "currentList ! k" and now = now
          and targetId = targetId and index = index and isCorrect = isCorrect]
      by blast
  qed
  have none: "targetId \<notin> id' ` set currentList \<longrightarrow>
        map typedItem (handleQuizComplete now targetId index isCorrect currentList)
          = map Some currentList"
    by (simp add: handle_no_match typedItem_untouched comp_def)
  from len items none show ?thesis
    by blast
qed

lemma sample_update:
  "map typedItem (handleQuizComplete 1000 ''1'' 1 True sampleList) =
     [Some (sampleItem ''1'' ''book''
              [sampleMeaning 0 (Num 500), sampleMeaning 4 (Num (1000 + 72 * 60 * 60 * 1000))]),
      Some (sampleItem ''2'' ''run'' [sampleMeaning 1 (Num 1000)])]"
  by (simp add: handleQuizComplete_def updateItem_def untouched_def typedItem_def slotMeaning_def
      arraySet_def recordOutcome_def at_def srsIntervalsHours_def sampleList_def sampleItem_def
      sampleMeaning_def MeaningContent.extend_def Meaning.fields_def Let_def)

lemma sample_update_beyond:
  "meanings (handleQuizComplete 1000 ''2'' 2 False sampleList ! 1) =
     [Present (sampleMeaning 1 (Num 1000)), Empty, Bare NaN (Num 301000)]"
  by (simp add: handleQuizComplete_def updateItem_def arraySet_def recordOutcomeUndefined_def
      sampleList_def sampleItem_def)

theorem handleQuizComplete_frame_witness:
  "map typedItem (handleQuizComplete 1000 ''1'' 1 True sampleList) =
     [Some (sampleItem ''1'' ''book''
              [sampleMeaning 0 (Num 500), sampleMeaning 4 (Num (1000 + 72 * 60 * 60 * 1000))]),
      Some (sampleItem ''2'' ''run'' [sampleMeaning 1 (Num 1000)])]
   \<and> typedItem (handleQuizComplete 1000 ''1'' 1 True sampleList ! 1) = Some (sampleList ! 1)
   \<and> map typedItem (handleQuizComplete 1000 ''9'' 0 True sampleList) = map Some sampleList
   \<and> meanings (handleQuizComplete 1000 ''2'' 2 False sampleList ! 1) =
       [Present (sampleMeaning 1 (Num 1000)), Empty, Bare NaN (Num 301000)]"
proof -
  have k: "1 < length sampleList" and other: "id' (sampleList ! 1) \<noteq> ''1''"
    and none: "''9'' \<notin> id' ` set sampleList"
    by (simp_all add: sampleList_def sampleItem_def)
  from handleQuizComplete_frame [of 1000 "''1''" 1 True sampleList] k other
  have "typedItem (handleQuizComplete 1000 ''1'' 1 True sampleList ! 1) = Some (sampleList ! 1)"
    unfolding Let_def by blast
  moreover from handleQuizComplete_frame [of 1000 "''9''" 0 True sampleList] none
  have "map typedItem (handleQuizComplete 1000 ''9'' 0 True sampleList) = map Some sampleList"
    by blast
  ultimately show ?thesis
    using sample_update sample_update_beyond by blast
qed

section \<open>Mastered words\<close>

lemma isMastered_iff:
  "isMastered threshold item \<longleftrightarrow> (\<forall>m \<in> set (meanings item). threshold \<le> srs_level m)"
  by (simp add: isMastered_def list_all_iff)

lemma fold_count: "fold (\<lambda>x n. if P x then n + 1 else n) xs k = k + length (filter P xs)"
  by (induction xs arbitrary: k) simp_all

lemma masteredWords_eq: "masteredWords vocabList = length (filter (isMastered 6) vocabList)"
  by (simp add: masteredWords_def fold_count MASTERY_THRESHOLD_def)

text \<open>
  C9. An item is mastered at a threshold exactly when every one of its meanings has a
  level of at least the threshold; the count of mastered words applies this with the
  threshold 6.
\<close>

theorem isMastered_every_meaning:
  "(isMastered threshold item \<longleftrightarrow> (\<forall>m \<in> set (meanings item). threshold \<le> srs_level m))
   \<and> masteredWords vocabList
       = length (filter (\<lambda>item. \<forall>m \<in> set (meanings item). 6 \<le> srs_level m) vocabList)
   \<and> inProgressWords vocabList = length vocabList - masteredWords vocabList"
proof -
  have "isMastered 6 = (\<lambda>item. \<forall>m \<in> set (meanings item). 6 \<le> srs_level m)"
    by (simp add: fun_eq_iff isMastered_iff)
  then have "masteredWords vocabList
       = length (filter (\<lambda>item. \<forall>m \<in> set (meanings item). 6 \<le> srs_level m) vocabList)"
    by (simp only: masteredWords_eq)
  then show ?thesis
    by (simp add: isMastered_iff inProgressWords_def)
qed

theorem isMastered_every_meaning_witness:
  "isMastered 6 (sampleItem ''1'' ''book'' [sampleMeaning 6 (Num 0), sampleMeaning 7 (Num 0)])
   \<and> \<not> isMastered 6 (sampleItem ''2'' ''run'' [sampleMeaning 6 (Num 0), sampleMeaning 5 (Num 0)])
   \<and> isMastered 6 (sampleItem ''3'' ''tree'' [])
   \<and> masteredWords
        [sampleItem ''1'' ''book'' [sampleMeaning 6 (Num 0), sampleMeaning 7 (Num 0)],
         sampleItem ''2'' ''run'' [sampleMeaning 6 (Num 0), sampleMeaning 5 (Num 0)]] = 1
   \<and> inProgressWords
        [sampleItem ''1'' ''book'' [sampleMeaning 6 (Num 0), sampleMeaning 7 (Num 0)],
         sampleItem ''2'' ''run'' [sampleMeaning 6 (Num 0), sampleMeaning 5 (Num 0)]] = 1"
  using isMastered_every_meaning
      [of 6 "sampleItem ''1'' ''book'' [sampleMeaning 6 (Num 0), sampleMeaning 7 (Num 0)]"
          "[sampleItem ''1'' ''book'' [sampleMeaning 6 (Num 0), sampleMeaning 7 (Num 0)],
            sampleItem ''2'' ''run'' [sampleMeaning 6 (Num 0), sampleMeaning 5 (Num 0)]]"]
    isMastered_every_meaning
      [of 6 "sampleItem ''2'' ''run'' [sampleMeaning 6 (Num 0), sampleMeaning 5 (Num 0)]" "[]"]
    isMastered_every_meaning [of 6 "sampleItem ''3'' ''tree'' []" "[]"]
  by (simp add: sampleItem_def sampleMeaning_level)

section \<open>Loading the stored list\<close>

lemma content_guards:
  "multipleChoiceValid (contentJson c @ extra)"
  "isString (map_of (contentJson c @ extra) ''gap_fill_prompt'')"
  "isString (map_of (contentJson c @ extra) ''one_word_arabic'')"
  by (simp_all add: contentJson_def multipleChoiceValid_def isString_def isArray_def)

lemma content_no_srs:
  "map_of (contentJson c) ''srs_level'' = None"
  "map_of (contentJson c) ''next_review_date'' = None"
  by (simp_all add: contentJson_def)

lemma migrate_saved: "migrateMeaning now (meaningJson m) = Some (meaningJson m)"
proof -
  have "hasSrsData (contentJson m @ [(''srs_level'', JNum (srs_level m)),
                            (''next_review_date'', numJson (next_review_date m))])"
    by (simp add: hasSrsData_def content_no_srs map_add_def)
  then show ?thesis
    unfolding meaningJson_def
    by (simp only: migrateMeaning.simps content_guards simp_thms if_True if_False)
qed

lemma update_absent: "map_of al k = None \<Longrightarrow> AList.update k v al = al @ [(k, v)]"
  by (induction al) (auto split: if_splits)

lemma contentJson_extend: "contentJson (MeaningContent.extend c x) = contentJson c"
  by (simp add: contentJson_def MeaningContent.defs)

lemma migrate_legacy:
  "migrateMeaning now (JObj (contentJson c)) = Some (meaningJson (newMeaning now c))"
proof -
  have "\<not> hasSrsData (contentJson c)"
    by (simp add: hasSrsData_def content_no_srs)
  moreover have "AList.update ''next_review_date'' (JNum now)
                         (AList.update ''srs_level'' (JNum 0) (contentJson c))
      = contentJson c @ [(''srs_level'', JNum 0), (''next_review_date'', JNum now)]"
    by (simp add: update_absent content_no_srs)
  moreover have "meaningJson (newMeaning now c)
      = JObj (contentJson c @ [(''srs_level'', JNum 0), (''next_review_date'', JNum now)])"
    by (simp add: meaningJson_def newMeaning_level newMeaning_date numJson_def)
       (simp add: newMeaning_def contentJson_extend)
  moreover have "multipleChoiceValid (contentJson c)"
    and "isString (map_of (contentJson c) ''gap_fill_prompt'')"
    and "isString (map_of (contentJson c) ''one_word_arabic'')"
    using content_guards [of c "[]"] by simp_all
  ultimately show ?thesis
    by (simp only: migrateMeaning.simps simp_thms if_True if_False)
qed

lemma migrate_saved_list:
  "List.map_filter (migrateMeaning now) (map meaningJson ms) = map meaningJson ms"
  by (induction ms) (simp_all add: List.map_filter_simps migrate_saved)

lemma migrateItem_saved:
  "migrateItem now (vocabJson meaningJson item) = vocabJson meaningJson item"
proof -
  have "List.map_filter (migrateMeaning now) (map meaningJson (meanings item))
      = map meaningJson (meanings item)"
    by (rule migrate_saved_list)
  then show ?thesis
    by (simp add: migrateItem_def vocabJson_def)
qed

lemma validItem_vocabJson: "validItem (vocabJson f item)"
  by (simp add: validItem_def vocabJson_def isArray_def isString_def)

lemma hasMeanings_vocabJson: "hasMeanings (vocabJson f item) \<longleftrightarrow> meanings item \<noteq> []"
  by (simp add: hasMeanings_def vocabJson_def)

lemma migratedList_saved:
  "migratedList now (map (vocabJson meaningJson) vocabList)
     = map (vocabJson meaningJson) (filter (\<lambda>item. meanings item \<noteq> []) vocabList)"
proof -
  let ?vj = "vocabJson meaningJson"
  have "filter validItem (map ?vj vocabList) = map ?vj vocabList"
    by (simp add: validItem_vocabJson)
  moreover have "map (migrateItem now) (map ?vj vocabList) = map ?vj vocabList"
    by (simp add: migrateItem_saved)
  ultimately have "migratedList now (map ?vj vocabList) = filter hasMeanings (map ?vj vocabList)"
    by (simp only: migratedList_def)
  also have "\<dots> = map ?vj (filter (hasMeanings \<circ> ?vj) vocabList)"
    by (simp only: filter_map)
  also have "hasMeanings \<circ> ?vj = (\<lambda>item. meanings item \<noteq> [])"
    by (simp add: fun_eq_iff hasMeanings_vocabJson)
  finally show ?thesis .
qed


lemma migrate_guarded:
  assumes "multipleChoiceValid r" and "isString (map_of r ''gap_fill_prompt'')"
    and "isString (map_of r ''one_word_arabic'')"
  shows "hasSrsData r \<longrightarrow> migrateMeaning now (JObj r) = Some (JObj r)"
    and "\<not> hasSrsData r \<longrightarrow>
           (\<exists>r'. migrateMeaning now (JObj r) = Some (JObj r')
              \<and> map_of r' ''srs_level'' = Some (JNum 0)
              \<and> map_of r' ''next_review_date'' = Some (JNum now)
              \<and> (\<forall>k. k \<noteq> ''srs_level'' \<and> k \<noteq> ''next_review_date'' \<longrightarrow>
                    map_of r' k = map_of r k))"
proof -
  show "hasSrsData r \<longrightarrow> migrateMeaning now (JObj r) = Some (JObj r)"
    using assms by simp
  let ?r' = "AList.update ''next_review_date'' (JNum now) (AList.update ''srs_level'' (JNum 0) r)"
  have "map_of ?r' ''srs_level'' = Some (JNum 0)"
    and "map_of ?r' ''next_review_date'' = Some (JNum now)"
    and "\<forall>k. k \<noteq> ''srs_level'' \<and> k \<noteq> ''next_review_date'' \<longrightarrow> map_of ?r' k = map_of r k"
    by (simp_all add: update_conv')
  moreover have "\<not> hasSrsData r \<longrightarrow> migrateMeaning now (JObj r) = Some (JObj ?r')"
    using assms by simp
  ultimately show "\<not> hasSrsData r \<longrightarrow>
           (\<exists>r'. migrateMeaning now (JObj r) = Some (JObj r')
              \<and> map_of r' ''srs_level'' = Some (JNum 0)
              \<and> map_of r' ''next_review_date'' = Some (JNum now)
              \<and> (\<forall>k. k \<noteq> ''srs_level'' \<and> k \<noteq> ''next_review_date'' \<longrightarrow>
                    map_of r' k = map_of r k))"
    by blast
qed

text \<open>A record that fails a guard is dropped, with or without scheduling properties.\<close>

lemma migrate_rejects:
  "\<not> multipleChoiceValid r \<or> \<not> isString (map_of r ''gap_fill_prompt'')
     \<or> \<not> isString (map_of r ''one_word_arabic'')
   \<Longrightarrow> migrateMeaning now (JObj r) = None"
  by auto

text \<open>The load of a stored list, record by record and as a whole.\<close>

lemma migrate_stored:
  "migrateMeaning now (storedJson s) = Some (meaningJson (loadedMeaning now s))"
proof (cases s)
  case (Inl c)
  then show ?thesis
    by (simp only: storedJson_def loadedMeaning_def sum.case migrate_legacy)
next
  case (Inr m)
  then show ?thesis
    by (simp only: storedJson_def loadedMeaning_def sum.case migrate_saved)
qed

lemma in_map_filter: "f x = Some y \<Longrightarrow> x \<in> set xs \<Longrightarrow> y \<in> set (List.map_filter f xs)"
  by (induction xs) (auto simp: List.map_filter_simps split: option.splits)

lemma migrate_stored_list:
  "List.map_filter (migrateMeaning now) (map storedJson ss)
     = map meaningJson (map (loadedMeaning now) ss)"
  by (induction ss) (simp_all add: List.map_filter_simps migrate_stored)

lemma migrateItem_stored:
  "migrateItem now (vocabJson storedJson item) = vocabJson meaningJson (loadedItem now item)"
  by (simp add: migrateItem_def vocabJson_def loadedItem_def migrate_stored_list)

lemma migratedList_stored:
  "migratedList now (map (vocabJson storedJson) stored)
     = map (vocabJson meaningJson)
         (map (loadedItem now) (filter (\<lambda>item. meanings item \<noteq> []) stored))"
proof -
  have "filter validItem (map (vocabJson storedJson) stored) = map (vocabJson storedJson) stored"
    by (simp add: validItem_vocabJson)
  moreover have "map (migrateItem now) (map (vocabJson storedJson) stored)
      = map (vocabJson meaningJson) (map (loadedItem now) stored)"
    by (simp add: migrateItem_stored)
  ultimately have "migratedList now (map (vocabJson storedJson) stored)
      = filter hasMeanings (map (vocabJson meaningJson \<circ> loadedItem now) stored)"
    by (simp only: migratedList_def map_map)
  also have "\<dots> = map (vocabJson meaningJson \<circ> loadedItem now)
                    (filter (hasMeanings \<circ> (vocabJson meaningJson \<circ> loadedItem now)) stored)"
    by (simp only: filter_map)
  also have "hasMeanings \<circ> (vocabJson meaningJson \<circ> loadedItem now)
      = (\<lambda>item. meanings item \<noteq> [])"
    by (simp add: fun_eq_iff hasMeanings_vocabJson loadedItem_def)
  finally show ?thesis
    by (simp only: map_map)
qed

lemma migratedList_raw:
  assumes item: "JObj kv \<in> set parsedList"
    and ms: "map_of kv ''meanings'' = Some (JArr ms)"
    and w: "isString (map_of kv ''word'')"
    and r: "JObj r \<in> set ms"
    and g: "multipleChoiceValid r" "isString (map_of r ''gap_fill_prompt'')"
      "isString (map_of r ''one_word_arabic'')"
  shows "\<exists>kv' ms'. JObj kv' \<in> set (migratedList now parsedList)
           \<and> map_of kv' ''meanings'' = Some (JArr ms')
           \<and> (\<forall>k. k \<noteq> ''meanings'' \<longrightarrow> map_of kv' k = map_of kv k)
           \<and> migratedRecord now r \<in> set ms'"
proof -
  let ?ms' = "List.map_filter (migrateMeaning now) ms"
  let ?kv' = "AList.update ''meanings'' (JArr ?ms') kv"
  have valid: "validItem (JObj kv)"
    using ms w by (simp add: validItem_def isArray_def)
  have mig: "migrateItem now (JObj kv) = JObj ?kv'"
    using ms by (simp add: migrateItem_def)
  have "migrateMeaning now (JObj r) = Some (migratedRecord now r)"
    using g by (simp add: migratedRecord_def)
  then have inside: "migratedRecord now r \<in> set ?ms'"
    using r by (rule in_map_filter)
  have m': "map_of ?kv' ''meanings'' = Some (JArr ?ms')"
    and other: "\<forall>k. k \<noteq> ''meanings'' \<longrightarrow> map_of ?kv' k = map_of kv k"
    by (simp_all add: update_conv')
  from inside have "?ms' \<noteq> []"
    by auto
  with m' have "hasMeanings (JObj ?kv')"
    by (simp add: hasMeanings_def)
  with item valid mig have "JObj ?kv' \<in> set (migratedList now parsedList)"
    by (force simp: migratedList_def)
  with m' other inside show ?thesis
    by blast
qed


text \<open>
  C10. On load the scheduling properties round-trip: a stored meaning with both
  properties is kept as it is, and so is the stored list (but for words without a
  meaning); a stored meaning without them is kept with level 0 and the due date \<open>now\<close>,
  exactly a new meaning of the same content; and so for every stored object that passes
  the guards of the migration: kept unchanged with both properties, and otherwise kept
  with the two properties set to 0 and \<open>now\<close> and every other property unchanged. So
  for the whole load: a stored list of words whose meanings have the properties or lack
  them loads as the list of the same words, every meaning with the properties unchanged
  and every meaning without them at level 0 and due \<open>now\<close>; and in every parsed list,
  every such object of a word that passes the first filter is in the loaded list, in its
  word, kept or defaulted.
\<close>

theorem migration_keeps_or_defaults:
  "migrateMeaning now (meaningJson m) = Some (meaningJson m)
   \<and> migrateMeaning now (JObj (contentJson c)) = Some (meaningJson (newMeaning now c))
   \<and> migratedList now (map (vocabJson meaningJson) vocabList)
       = map (vocabJson meaningJson) (filter (\<lambda>item. meanings item \<noteq> []) vocabList)
   \<and> (multipleChoiceValid r \<and> isString (map_of r ''gap_fill_prompt'')
        \<and> isString (map_of r ''one_word_arabic'') \<longrightarrow>
        (hasSrsData r \<longrightarrow> migrateMeaning now (JObj r) = Some (JObj r))
        \<and> (\<not> hasSrsData r \<longrightarrow>
             (\<exists>r'. migrateMeaning now (JObj r) = Some (JObj r')
                \<and> map_of r' ''srs_level'' = Some (JNum 0)
                \<and> map_of r' ''next_review_date'' = Some (JNum now)
                \<and> (\<forall>k. k \<noteq> ''srs_level'' \<and> k \<noteq> ''next_review_date'' \<longrightarrow>
                      map_of r' k = map_of r k))))
   \<and> migratedList now (map (vocabJson storedJson) stored)
       = map (vocabJson meaningJson)
           (map (loadedItem now) (filter (\<lambda>item. meanings item \<noteq> []) stored))
   \<and> (JObj kv \<in> set parsedList \<and> map_of kv ''meanings'' = Some (JArr ms)
        \<and> isString (map_of kv ''word'') \<and> JObj r \<in> set ms
        \<and> multipleChoiceValid r \<and> isString (map_of r ''gap_fill_prompt'')
        \<and> isString (map_of r ''one_word_arabic'') \<longrightarrow>
        (\<exists>kv' ms'. JObj kv' \<in> set (migratedList now parsedList)
           \<and> map_of kv' ''meanings'' = Some (JArr ms')
           \<and> (\<forall>k. k \<noteq> ''meanings'' \<longrightarrow> map_of kv' k = map_of kv k)
           \<and> migratedRecord now r \<in> set ms'))"
  using migrate_saved [of now m] migrate_legacy [of now c] migratedList_saved [of now vocabList]
    migrate_guarded [of r now] migratedList_stored [of now stored]
    migratedList_raw [of kv parsedList ms r now]
  by blast

theorem migration_keeps_or_defaults_witness:
  "migrateMeaning 1000 (meaningJson (sampleMeaning 3 (Num 2000)))
     = Some (meaningJson (sampleMeaning 3 (Num 2000)))
   \<and> migrateMeaning 1000 (JObj (contentJson sampleContent))
     = Some (meaningJson (sampleMeaning 0 (Num 1000)))
   \<and> migratedList 1000 (map (vocabJson meaningJson) sampleList)
     = map (vocabJson meaningJson) sampleList
   \<and> multipleChoiceValid (contentJson sampleContent)
   \<and> isString (map_of (contentJson sampleContent) ''gap_fill_prompt'')
   \<and> isString (map_of (contentJson sampleContent) ''one_word_arabic'')
   \<and> \<not> hasSrsData (contentJson sampleContent)
   \<and> (\<exists>r'. migrateMeaning 1000 (JObj (contentJson sampleContent)) = Some (JObj r')
          \<and> map_of r' ''srs_level'' = Some (JNum 0)
          \<and> map_of r' ''next_review_date'' = Some (JNum 1000)
          \<and> map_of r' ''one_word_arabic'' = Some (JStr ''kitab''))
   \<and> migratedList 1000 (map (vocabJson storedJson) sampleStored)
     = [vocabJson meaningJson
          (sampleItem ''1'' ''book'' [sampleMeaning 0 (Num 1000), sampleMeaning 3 (Num 2000)])]
   \<and> (\<exists>kv' ms'. JObj kv' \<in> set (migratedList 1000 sampleParsed)
          \<and> map_of kv' ''meanings'' = Some (JArr ms')
          \<and> map_of kv' ''word'' = Some (JStr ''book'')
          \<and> meaningJson (sampleMeaning 0 (Num 1000)) \<in> set ms')"
proof -
  let ?r = "contentJson sampleContent"
  let ?kv = "[(''word'', JStr ''book''), (''meanings'', JArr [JStr ''x'', JObj ?r])]"
  note t = migration_keeps_or_defaults
    [of 1000 "sampleMeaning 3 (Num 2000)" sampleContent sampleList ?r sampleStored
        ?kv sampleParsed "[JStr ''x'', JObj ?r]"]
  have g: "multipleChoiceValid ?r" "isString (map_of ?r ''gap_fill_prompt'')"
    "isString (map_of ?r ''one_word_arabic'')"
    using content_guards [of sampleContent "[]"] by simp_all
  have n: "\<not> hasSrsData ?r"
    by (simp add: hasSrsData_def content_no_srs)
  have w: "map_of ?r ''one_word_arabic'' = Some (JStr ''kitab'')"
    by (simp add: contentJson_def sampleContent_def)
  have f: "filter (\<lambda>item. meanings item \<noteq> []) sampleList = sampleList"
    by (simp add: sampleList_def sampleItem_def)
  have s: "newMeaning 1000 sampleContent = sampleMeaning 0 (Num 1000)"
    by (simp add: newMeaning_def sampleMeaning_def)
  have rec: "migratedRecord 1000 ?r = meaningJson (sampleMeaning 0 (Num 1000))"
    using t g by (simp only: migratedRecord_def n if_False migrateMeaning.simps simp_thms s)
      simp
  have st: "map (loadedItem 1000) (filter (\<lambda>item. meanings item \<noteq> []) sampleStored)
      = [sampleItem ''1'' ''book'' [sampleMeaning 0 (Num 1000), sampleMeaning 3 (Num 2000)]]"
    by (simp add: sampleStored_def loadedItem_def loadedMeaning_def sampleItem_def s)
  have p: "JObj ?kv \<in> set sampleParsed" "map_of ?kv ''meanings'' = Some (JArr [JStr ''x'', JObj ?r])"
    "isString (map_of ?kv ''word'')" "JObj ?r \<in> set [JStr ''x'', JObj ?r]"
    by (simp_all add: sampleParsed_def isString_def)
  from t g n
  obtain r' where "migrateMeaning 1000 (JObj ?r) = Some (JObj r')"
    and "map_of r' ''srs_level'' = Some (JNum 0)"
    and "map_of r' ''next_review_date'' = Some (JNum 1000)"
    and "\<forall>k. k \<noteq> ''srs_level'' \<and> k \<noteq> ''next_review_date'' \<longrightarrow> map_of r' k = map_of ?r k"
    by blast
  moreover from this w have "map_of r' ''one_word_arabic'' = Some (JStr ''kitab'')"
    by simp
  ultimately have one: "\<exists>r'. migrateMeaning 1000 (JObj ?r) = Some (JObj r')
          \<and> map_of r' ''srs_level'' = Some (JNum 0)
          \<and> map_of r' ''next_review_date'' = Some (JNum 1000)
          \<and> map_of r' ''one_word_arabic'' = Some (JStr ''kitab'')"
    by blast
  from t p g obtain kv' ms' where "JObj kv' \<in> set (migratedList 1000 sampleParsed)"
    and "map_of kv' ''meanings'' = Some (JArr ms')"
    and "\<forall>k. k \<noteq> ''meanings'' \<longrightarrow> map_of kv' k = map_of ?kv k"
    and "migratedRecord 1000 ?r \<in> set ms'"
    by blast
  moreover from this have "map_of kv' ''word'' = Some (JStr ''book'')"
    by simp
  ultimately have raw: "\<exists>kv' ms'. JObj kv' \<in> set (migratedList 1000 sampleParsed)
          \<and> map_of kv' ''meanings'' = Some (JArr ms')
          \<and> map_of kv' ''word'' = Some (JStr ''book'')
          \<and> meaningJson (sampleMeaning 0 (Num 1000)) \<in> set ms'"
    unfolding rec by blast
  from t have "migratedList 1000 (map (vocabJson storedJson) sampleStored)
       = map (vocabJson meaningJson)
           (map (loadedItem 1000) (filter (\<lambda>item. meanings item \<noteq> []) sampleStored))"
    by blast
  then have stored: "migratedList 1000 (map (vocabJson storedJson) sampleStored)
     = [vocabJson meaningJson
          (sampleItem ''1'' ''book'' [sampleMeaning 0 (Num 1000), sampleMeaning 3 (Num 2000)])]"
    by (simp only: st list.map)
  from t have a: "migrateMeaning 1000 (meaningJson (sampleMeaning 3 (Num 2000)))
     = Some (meaningJson (sampleMeaning 3 (Num 2000)))"
    by blast
  from t have b: "migrateMeaning 1000 (JObj ?r) = Some (meaningJson (sampleMeaning 0 (Num 1000)))"
    unfolding s by blast
  from t have c: "migratedList 1000 (map (vocabJson meaningJson) sampleList)
     = map (vocabJson meaningJson) sampleList"
    unfolding f by blast
  from a b c g n one stored raw show ?thesis
    by blast
qed

end
